theory Spec2Isabelle
  imports Main "HOL-Library.Sublist"
begin

section \<open>Python values used by \<open>builder/component/pacman.py\<close>\<close>

text \<open>
  Exceptions are values. Each constructor is one exception class the module raises
  (or lets escape); the string is the message.
\<close>

datatype error =
    ArchBuilderConfigError string
  | KeyError string
  | RuntimeError string
  | ValueError string
  | OSError string

text \<open>\<open>s.startswith(p)\<close> and \<open>s.endswith(p)\<close>.\<close>

definition startswith :: "string \<Rightarrow> string \<Rightarrow> bool" where
  "startswith s p = prefix p s"

definition endswith :: "string \<Rightarrow> string \<Rightarrow> bool" where
  "endswith s p = suffix p s"

text \<open>An f-string field \<open>{v}\<close> where \<open>v\<close> may be \<open>None\<close>.\<close>

definition py_str :: "string option \<Rightarrow> string" where
  "py_str v = (case v of None \<Rightarrow> ''None'' | Some s \<Rightarrow> s)"

text \<open>
  \<open>os.path.join(a, b)\<close> (posixpath): an absolute second component discards the first;
  otherwise the components are joined by one slash unless the first is empty or already
  ends with one.
\<close>

definition path_join :: "string \<Rightarrow> string \<Rightarrow> string" where
  "path_join a b =
     (if startswith b ''/'' then b
      else if a = [] \<or> endswith a ''/'' then a @ b
      else a @ ''/'' @ b)"

section \<open>Repository model\<close>

text \<open>
  \<open>class PacmanRepoServer\<close>: the class attributes are the defaults, the constructor
  overrides the ones given.
\<close>

record PacmanRepoServer =
  srv_url :: "string option"
  srv_name :: "string option"
  srv_mirror :: bool

definition PacmanRepoServer_init ::
  "string option \<Rightarrow> string option \<Rightarrow> bool option \<Rightarrow> PacmanRepoServer" where
  "PacmanRepoServer_init name url mirror =
     \<lparr>srv_url = url, srv_name = name,
      srv_mirror = (case mirror of None \<Rightarrow> False | Some b \<Rightarrow> b)\<rparr>"

text \<open>\<open>class PacmanRepo\<close>; \<open>priority\<close> defaults to 10000, \<open>servers\<close> to the empty list.\<close>

record PacmanRepo =
  repo_name :: "string option"
  priority :: int
  servers :: "PacmanRepoServer list"
  mirrorlist :: "string option"
  publickey :: "string option"
  keyid :: "string option"

definition PacmanRepo_init :: "string option \<Rightarrow> PacmanRepo" where
  "PacmanRepo_init name =
     \<lparr>repo_name = name, priority = 10000, servers = [],
      mirrorlist = None, publickey = None, keyid = None\<rparr>"

definition add_server ::
  "PacmanRepo \<Rightarrow> string option \<Rightarrow> string option \<Rightarrow> bool option \<Rightarrow> PacmanRepo" where
  "add_server self name url mirror =
     self\<lparr>servers := servers self @ [PacmanRepoServer_init name url mirror]\<rparr>"

section \<open>Configuration input\<close>

text \<open>
  The configuration is untyped mappings in the source. Each mapping is a record whose
  fields are the keys the code reads; \<open>None\<close> is an absent key. The values have the
  types the code expects (strings, an integer priority, a list of strings).
\<close>

record repo_decl =
  d_name :: "string option"
  d_priority :: "int option"
  d_mirrorlist :: "string option"
  d_publickey :: "string option"
  d_keyid :: "string option"
  d_server :: "string option"
  d_servers :: "string list option"

record mapping_decl =
  m_original :: "string option"
  m_mirror :: "string option"

record mirror_decl =
  mir_name :: "string option"
  mir_repos :: "mapping_decl list option"

record pacman_config =
  c_repo :: "repo_decl list option"

section \<open>The builder context and the state of a run\<close>

text \<open>
  \<open>ArchBuilderContext\<close>, as far as this module reads it. \<open>run_external\<close> gives the exit
  status of an external command; \<open>ctx_mirrors\<close> is the top-level \<open>mirrors\<close> key.
\<close>

record ctx =
  work :: string
  tgt_arch :: string
  gpgcheck :: bool
  ctx_mirrors :: "mirror_decl list option"
  run_external :: "string list \<Rightarrow> int"

text \<open>
  A node of the file system: a directory, or a regular file with its contents.
\<close>

datatype node = Dir | File string

text \<open>
  The state the methods of \<open>class Pacman\<close> read and change: the attributes of \<open>self\<close>
  (\<open>config\<close>, \<open>root\<close>, the handle's \<open>gpgdir\<close> and \<open>logfile\<close>, \<open>caches\<close>, \<open>repos\<close>) and the
  machine around it: the file system as a map from path to node, the mode, owner and
  group set on a path by \<open>fchmod\<close>/\<open>fchown\<close>, and the log of the commands handed to
  \<open>ctx.run_external\<close>, oldest first. Paths are compared as strings. Logging is not part
  of the state.
\<close>

record pacman =
  config :: pacman_config
  root :: string
  handle_gpgdir :: string
  handle_logfile :: string
  caches :: "string list"
  repos :: "PacmanRepo list"
  nodes :: "string \<Rightarrow> node option"
  meta :: "string \<Rightarrow> (nat \<times> nat \<times> nat) option"
  calls :: "string list list"

section \<open>\<open>Pacman.add_repo\<close>\<close>

text \<open>
  \<open>not repo\<close> is false for an instance of \<open>PacmanRepo\<close> (a plain object); \<open>not repo.name\<close>
  holds for \<open>None\<close> and for the empty string. \<open>list.sort\<close> is a stable sort by the key,
  as \<open>sort_key\<close> is.
\<close>

definition add_repo :: "pacman \<Rightarrow> PacmanRepo \<Rightarrow> error option \<times> pacman" where
  "add_repo self repo =
     (if repo_name repo = None \<or> repo_name repo = Some [] \<or> length (servers repo) \<le> 0
      then (Some (ArchBuilderConfigError ''bad repo''), self)
      else (None, self\<lparr>repos := sort_key priority (repos self @ [repo])\<rparr>))"

text \<open>A sequence of \<open>add_repo\<close> calls; an exception ends it.\<close>

fun add_repo_seq :: "pacman \<Rightarrow> PacmanRepo list \<Rightarrow> error option \<times> pacman" where
  "add_repo_seq self [] = (None, self)"
| "add_repo_seq self (repo # rest) =
     (case add_repo self repo of
        (Some e, self') \<Rightarrow> (Some e, self')
      | (None, self') \<Rightarrow> add_repo_seq self' rest)"

section \<open>\<open>Pacman.init_repos\<close>\<close>

text \<open>
  Lines 328 to 335: the list \<open>servers\<close> of configured templates. The second statement
  reads the key \<open>server\<close> under the test for the key \<open>servers\<close>: it raises \<open>KeyError\<close>
  when \<open>server\<close> is absent, and otherwise extends the list by the elements of the string
  \<open>repo["server"]\<close>, its characters.
\<close>

definition init_repos_servers :: "repo_decl \<Rightarrow> error + string list" where
  "init_repos_servers repo =
     (let servers1 = (case d_server repo of Some s \<Rightarrow> [s] | None \<Rightarrow> []) in
      if d_servers repo \<noteq> None
      then (case d_server repo of
              None \<Rightarrow> Inl (KeyError ''server'')
            | Some s \<Rightarrow> Inr (servers1 @ map (\<lambda>c. [c]) s))
      else Inr servers1)"

text \<open>Lines 355 to 363: the loop over \<open>originals\<close> for one mapping of one mirror.\<close>

fun init_repos_match ::
  "string \<Rightarrow> string \<Rightarrow> string \<Rightarrow> string list \<Rightarrow> PacmanRepo \<Rightarrow> PacmanRepo" where
  "init_repos_match mname orig mir [] pacman_repo = pacman_repo"
| "init_repos_match mname orig mir (original # rest) pacman_repo =
     init_repos_match mname orig mir rest
       (if startswith original orig
        then add_server pacman_repo (Some mname)
               (Some (mir @ drop (length orig) original)) (Some True)
        else pacman_repo)"

text \<open>Lines 350 to 363: the loop over \<open>mirror["repos"]\<close>.\<close>

fun init_repos_mappings ::
  "string \<Rightarrow> mapping_decl list \<Rightarrow> string list \<Rightarrow> PacmanRepo \<Rightarrow> error + PacmanRepo" where
  "init_repos_mappings mname [] originals pacman_repo = Inr pacman_repo"
| "init_repos_mappings mname (repo # rest) originals pacman_repo =
     (case m_original repo of
        None \<Rightarrow> Inl (ArchBuilderConfigError ''original url not set'')
      | Some orig \<Rightarrow>
          (case m_mirror repo of
             None \<Rightarrow> Inl (ArchBuilderConfigError ''mirror url not set'')
           | Some mir \<Rightarrow>
               init_repos_mappings mname rest originals
                 (init_repos_match mname orig mir originals pacman_repo)))"

text \<open>Lines 345 to 363: the loop over \<open>mirrors\<close>.\<close>

fun init_repos_mirrors ::
  "mirror_decl list \<Rightarrow> string list \<Rightarrow> PacmanRepo \<Rightarrow> error + PacmanRepo" where
  "init_repos_mirrors [] originals pacman_repo = Inr pacman_repo"
| "init_repos_mirrors (mirror # rest) originals pacman_repo =
     (case mir_name mirror of
        None \<Rightarrow> Inl (ArchBuilderConfigError ''mirror name not set'')
      | Some mname \<Rightarrow>
          (case mir_repos mirror of
             None \<Rightarrow> Inl (ArchBuilderConfigError ''repos list not set'')
           | Some ms \<Rightarrow>
               (case init_repos_mappings mname ms originals pacman_repo of
                  Inl e \<Rightarrow> Inl e
                | Inr pacman_repo' \<Rightarrow> init_repos_mirrors rest originals pacman_repo')))"

text \<open>Lines 366 to 370: the loop that adds the original servers.\<close>

fun init_repos_add_originals :: "string list \<Rightarrow> PacmanRepo \<Rightarrow> PacmanRepo" where
  "init_repos_add_originals [] pacman_repo = pacman_repo"
| "init_repos_add_originals (original # rest) pacman_repo =
     init_repos_add_originals rest (add_server pacman_repo None (Some original) (Some False))"

text \<open>
  Lines 338 to 342: the literal original URLs. \<open>resolve_simple_values\<close> lives in
  \<open>builder.lib.subscript\<close> and is a parameter here: it takes the template and the
  dictionary of values.
\<close>

definition init_repos_originals ::
  "(string \<Rightarrow> (string \<times> string) list \<Rightarrow> string) \<Rightarrow> ctx \<Rightarrow> string \<Rightarrow> string list \<Rightarrow> string list" where
  "init_repos_originals resolve_simple_values c n servers0 =
     map (\<lambda>server. resolve_simple_values server [(''arch'', tgt_arch c), (''repo'', n)]) servers0"

text \<open>Line 301: \<open>mirrors = self.ctx.get("mirrors", [])\<close>.\<close>

definition get_mirrors :: "ctx \<Rightarrow> mirror_decl list" where
  "get_mirrors c = (case ctx_mirrors c of Some ms \<Rightarrow> ms | None \<Rightarrow> [])"

text \<open>
  Lines 303 to 370: the body of the loop over \<open>self.config["repo"]\<close>, up to the call of
  \<open>add_repo\<close>: the repository built from one declaration.
\<close>

definition init_repos_repo ::
  "(string \<Rightarrow> (string \<times> string) list \<Rightarrow> string) \<Rightarrow> ctx \<Rightarrow> repo_decl \<Rightarrow> error + PacmanRepo" where
  "init_repos_repo resolve_simple_values c repo =
     (case d_name repo of
        None \<Rightarrow> Inl (ArchBuilderConfigError ''repo name not set'')
      | Some n \<Rightarrow>
          if n = ''local'' \<or> CHR ''/'' \<in> set n
          then Inl (ArchBuilderConfigError ''bad repo name'')
          else
            let pacman_repo = PacmanRepo_init (Some n);
                pacman_repo = (case d_priority repo of
                                 Some p \<Rightarrow> pacman_repo\<lparr>priority := p\<rparr>
                               | None \<Rightarrow> pacman_repo);
                pacman_repo = (case d_mirrorlist repo of
                                 Some m \<Rightarrow> pacman_repo\<lparr>mirrorlist := Some m\<rparr>
                               | None \<Rightarrow> pacman_repo)
            in
              if d_publickey repo \<noteq> None \<and> d_keyid repo = None
              then Inl (ArchBuilderConfigError ''publickey is provided without keyid'')
              else
                let pacman_repo = (case d_publickey repo of
                                     Some k \<Rightarrow> pacman_repo\<lparr>publickey := Some k\<rparr>
                                   | None \<Rightarrow> pacman_repo);
                    pacman_repo = (case d_keyid repo of
                                     Some k \<Rightarrow> pacman_repo\<lparr>keyid := Some k\<rparr>
                                   | None \<Rightarrow> pacman_repo)
                in
                  (case init_repos_servers repo of
                     Inl e \<Rightarrow> Inl e
                   | Inr servers0 \<Rightarrow>
                       if length servers0 \<le> 0
                       then Inl (ArchBuilderConfigError ''no any original repo url found'')
                       else
                         let originals = init_repos_originals resolve_simple_values c n servers0;
                             mirrors = get_mirrors c
                         in
                           (case init_repos_mirrors mirrors originals pacman_repo of
                              Inl e \<Rightarrow> Inl e
                            | Inr pacman_repo' \<Rightarrow>
                                Inr (init_repos_add_originals originals pacman_repo'))))"

text \<open>The loop over the declarations: build the repository, then \<open>add_repo\<close>.\<close>

fun init_repos_loop ::
  "(string \<Rightarrow> (string \<times> string) list \<Rightarrow> string) \<Rightarrow> ctx \<Rightarrow> repo_decl list \<Rightarrow> pacman
     \<Rightarrow> error option \<times> pacman" where
  "init_repos_loop rsv c [] self = (None, self)"
| "init_repos_loop rsv c (repo # rest) self =
     (case init_repos_repo rsv c repo of
        Inl e \<Rightarrow> (Some e, self)
      | Inr pacman_repo \<Rightarrow>
          (case add_repo self pacman_repo of
             (Some e, self') \<Rightarrow> (Some e, self')
           | (None, self') \<Rightarrow> init_repos_loop rsv c rest self'))"

definition init_repos ::
  "(string \<Rightarrow> (string \<times> string) list \<Rightarrow> string) \<Rightarrow> ctx \<Rightarrow> pacman \<Rightarrow> error option \<times> pacman" where
  "init_repos rsv c self =
     (case c_repo (config self) of
        None \<Rightarrow> (Some (ArchBuilderConfigError ''no repos found in config''), self)
      | Some decls \<Rightarrow> init_repos_loop rsv c decls self)"

section \<open>\<open>Pacman.append_repos\<close>, \<open>Pacman.append_config\<close> and \<open>Pacman.init_config\<close>\<close>

text \<open>The loop over \<open>repo.servers\<close>: a comment line, then the \<open>Server\<close> line.\<close>

fun append_repos_servers :: "PacmanRepoServer list \<Rightarrow> string list \<Rightarrow> string list" where
  "append_repos_servers [] lines = lines"
| "append_repos_servers (server # rest) lines =
     append_repos_servers rest
       ((if srv_mirror server
         then lines @ [''# Mirror '' @ py_str (srv_name server) @ ''\<newline>'']
         else lines @ [''# Original Repo\<newline>''])
        @ [''Server = '' @ py_str (srv_url server) @ ''\<newline>''])"

text \<open>The loop over \<open>self.repos\<close>; \<open>lines\<close> is the list the caller passes, returned extended.\<close>

fun append_repos_loop :: "PacmanRepo list \<Rightarrow> bool \<Rightarrow> string list \<Rightarrow> string list" where
  "append_repos_loop [] rootfs lines = lines"
| "append_repos_loop (repo # rest) rootfs lines =
     (let lines1 = lines @ [''['' @ py_str (repo_name repo) @ '']\<newline>''] in
      append_repos_loop rest rootfs
        (if rootfs \<and> mirrorlist repo \<noteq> None
         then lines1 @ [''Include = /etc/pacman.d/'' @ py_str (repo_name repo) @ ''-mirrorlist\<newline>'']
         else append_repos_servers (servers repo) lines1))"

definition append_repos :: "pacman \<Rightarrow> string list \<Rightarrow> bool \<Rightarrow> string list" where
  "append_repos self lines rootfs = append_repos_loop (repos self) rootfs lines"

text \<open>The loop over \<open>self.caches\<close>.\<close>

fun append_config_caches :: "string list \<Rightarrow> string list \<Rightarrow> string list" where
  "append_config_caches [] lines = lines"
| "append_config_caches (cache # rest) lines =
     append_config_caches rest (lines @ [''CacheDir = '' @ cache @ ''\<newline>''])"

definition append_config :: "ctx \<Rightarrow> pacman \<Rightarrow> string list \<Rightarrow> string list" where
  "append_config c self lines =
     (let siglevel = (if gpgcheck c then ''Required DatabaseOptional'' else ''Never'');
          lines = lines @ [''[options]\<newline>''];
          lines = append_config_caches (caches self) lines;
          lines = lines @ [''RootDir = '' @ root self @ ''\<newline>''];
          lines = lines @ [''GPGDir = '' @ handle_gpgdir self @ ''\<newline>''];
          lines = lines @ [''LogFile = '' @ handle_logfile self @ ''\<newline>''];
          lines = lines @ [''HoldPkg = pacman glibc\<newline>''];
          lines = lines @ [''Architecture = '' @ tgt_arch c @ ''\<newline>''];
          lines = lines @ [''UseSyslog\<newline>''];
          lines = lines @ [''Color\<newline>''];
          lines = lines @ [''CheckSpace\<newline>''];
          lines = lines @ [''VerbosePkgLists\<newline>''];
          lines = lines @ [''ParallelDownloads = 5\<newline>''];
          lines = lines @ [''SigLevel = '' @ siglevel @ ''\<newline>''];
          lines = lines @ [''LocalFileSigLevel = Optional\<newline>'']
      in append_repos self lines False)"

text \<open>
  The file-system calls. \<open>os.remove\<close> refuses a directory. Opening a path for writing
  truncates or creates the file and refuses a directory; the model writes the whole
  contents at once. \<open>shutil.rmtree\<close> refuses a regular file and removes the directory
  with everything below it. \<open>os.makedirs\<close> without \<open>exist_ok\<close> refuses an existing path;
  the parent directories are taken to exist.
\<close>

definition os_path_exists :: "pacman \<Rightarrow> string \<Rightarrow> bool" where
  "os_path_exists self p = (nodes self p \<noteq> None)"

definition os_remove :: "pacman \<Rightarrow> string \<Rightarrow> error option \<times> pacman" where
  "os_remove self p =
     (case nodes self p of
        Some (File _) \<Rightarrow> (None, self\<lparr>nodes := (nodes self)(p := None), meta := (meta self)(p := None)\<rparr>)
      | Some Dir \<Rightarrow> (Some (OSError ''is a directory''), self)
      | None \<Rightarrow> (Some (OSError ''no such file or directory''), self))"

definition write_file :: "pacman \<Rightarrow> string \<Rightarrow> string \<Rightarrow> error option \<times> pacman" where
  "write_file self p contents =
     (case nodes self p of
        Some Dir \<Rightarrow> (Some (OSError ''is a directory''), self)
      | _ \<Rightarrow> (None, self\<lparr>nodes := (nodes self)(p \<mapsto> File contents)\<rparr>))"

definition below :: "string \<Rightarrow> string \<Rightarrow> bool" where
  "below d p = startswith p (d @ ''/'')"

definition shutil_rmtree :: "pacman \<Rightarrow> string \<Rightarrow> error option \<times> pacman" where
  "shutil_rmtree self d =
     (case nodes self d of
        Some Dir \<Rightarrow>
          (None, self\<lparr>nodes := (\<lambda>p. if p = d \<or> below d p then None else nodes self p),
                       meta := (\<lambda>p. if p = d \<or> below d p then None else meta self p)\<rparr>)
      | Some (File _) \<Rightarrow> (Some (OSError ''not a directory''), self)
      | None \<Rightarrow> (Some (OSError ''no such file or directory''), self))"

definition os_makedirs :: "pacman \<Rightarrow> string \<Rightarrow> error option \<times> pacman" where
  "os_makedirs self d =
     (case nodes self d of
        None \<Rightarrow> (None, self\<lparr>nodes := (nodes self)(d \<mapsto> Dir)\<rparr>)
      | Some _ \<Rightarrow> (Some (OSError ''file exists''), self))"

text \<open>
  \<open>init_config\<close>: remove the artifact if it exists, render into a fresh list, write.
  \<open>writelines\<close> writes the lines one after the other.
\<close>

definition init_config :: "ctx \<Rightarrow> pacman \<Rightarrow> error option \<times> pacman" where
  "init_config c self =
     (let config_path = path_join (work c) ''pacman.conf'' in
      case (if os_path_exists self config_path then os_remove self config_path else (None, self)) of
        (Some e, self') \<Rightarrow> (Some e, self')
      | (None, self') \<Rightarrow>
          (let lines = append_config c self' [] in
           write_file self' config_path (concat lines)))"

section \<open>Key management: \<open>pacman_key\<close> and \<open>pouplate_keys\<close>\<close>

text \<open>An integer in an f-string.\<close>

function str_nat :: "nat \<Rightarrow> string" where
  "str_nat n =
     (if n < 10 then [char_of (48 + n)]
      else str_nat (n div 10) @ [char_of (48 + n mod 10)])"
  by pat_completeness auto
termination
  by (relation "measure id") auto

definition str_int :: "int \<Rightarrow> string" where
  "str_int i = (if i < 0 then ''-'' @ str_nat (nat (- i)) else str_nat (nat i))"

text \<open>
  \<open>pacman_key\<close>: the command is recorded in \<open>calls\<close>; a non-zero status is an \<open>OSError\<close>.
  What the tool itself does to the file system is outside the model.
\<close>

definition pacman_key :: "ctx \<Rightarrow> pacman \<Rightarrow> string list \<Rightarrow> error option \<times> pacman" where
  "pacman_key c self args =
     (if \<not> gpgcheck c then (Some (RuntimeError ''GPG check disabled''), self)
      else
        let keyring = path_join (root self) ''etc/pacman.d/gnupg'';
            config_path = path_join (work c) ''pacman.conf'';
            cmds = [''pacman-key'', ''--gpgdir='' @ keyring, ''--config='' @ config_path] @ args;
            ret = run_external c cmds;
            self' = self\<lparr>calls := calls self @ [cmds]\<rparr>
        in if ret \<noteq> 0
           then (Some (OSError (''pacman-key failed with '' @ str_int ret)), self')
           else (None, self'))"

text \<open>
  \<open>pouplate_keys(names, folder)\<close> with \<open>names\<close> either \<open>None\<close> or a list, the two forms
  this module passes; \<open>if folder\<close> holds for a non-empty string.
\<close>

definition pouplate_keys ::
  "ctx \<Rightarrow> pacman \<Rightarrow> string list option \<Rightarrow> string option \<Rightarrow> error option \<times> pacman" where
  "pouplate_keys c self names folder =
     (let args = [''--populate''];
          args = (case folder of
                    None \<Rightarrow> args
                  | Some f \<Rightarrow> if f = [] then args else args @ [''--populate-from'', f]);
          args = (case names of None \<Rightarrow> args | Some ns \<Rightarrow> args @ ns)
      in pacman_key c self args)"

section \<open>\<open>Pacman.find_package_file\<close> and \<open>Pacman.trust_keyring_pkg\<close>\<close>

text \<open>A \<open>pyalpm.Package\<close>, as far as it is read here.\<close>

record package =
  pkg_name :: string
  pkg_filename :: string

text \<open>
  An entry of an archive as the archive reader yields it: the path, the blocks of
  its bytes, and the recorded mode, owner and group.
\<close>

record entry =
  pathname :: string
  blocks :: "string list"
  mode :: nat
  uid :: nat
  gid :: nat

fun find_package_file_loop :: "pacman \<Rightarrow> string list \<Rightarrow> package \<Rightarrow> string option" where
  "find_package_file_loop self [] pkg = None"
| "find_package_file_loop self (cache # rest) pkg =
     (let p = path_join cache (pkg_filename pkg) in
      if os_path_exists self p then Some p else find_package_file_loop self rest pkg)"

definition find_package_file :: "pacman \<Rightarrow> package \<Rightarrow> string option" where
  "find_package_file self pkg = find_package_file_loop self (caches self) pkg"

text \<open>
  The loop over the entries of the archive (lines 534 to 553). It returns \<open>names\<close>, or
  the exception that ended it, and the state reached.
\<close>

fun trust_keyring_extract ::
  "string \<Rightarrow> string \<Rightarrow> entry list \<Rightarrow> string list \<Rightarrow> pacman \<Rightarrow> (error + string list) \<times> pacman" where
  "trust_keyring_extract target keyring [] names self = (Inr names, self)"
| "trust_keyring_extract target keyring (file # rest) names self =
     (let pn = pathname file in
      if \<not> startswith pn keyring then trust_keyring_extract target keyring rest names self
      else
        let fn = drop (length keyring) pn in
        if length fn \<le> 0 then trust_keyring_extract target keyring rest names self
        else
          let names' = (if endswith fn ''.gpg'' then names @ [take (length fn - 4) fn] else names);
              dest = path_join target fn
          in case write_file self dest (concat (blocks file)) of
               (Some e, self') \<Rightarrow> (Inl e, self')
             | (None, self') \<Rightarrow>
                 trust_keyring_extract target keyring rest names'
                   (self'\<lparr>meta := (meta self')(dest \<mapsto> (mode file, uid file, gid file))\<rparr>))"

text \<open>
  \<open>trust_keyring_pkg\<close>. The archive reader is a parameter: \<open>file_reader\<close> decodes the
  bytes of the archive file into its entries, or fails. The archive is read as it is
  when it is opened.
\<close>

definition trust_keyring_pkg ::
  "(string \<Rightarrow> error + entry list) \<Rightarrow> ctx \<Rightarrow> pacman \<Rightarrow> package \<Rightarrow> error option \<times> pacman" where
  "trust_keyring_pkg file_reader c self pkg =
     (if \<not> gpgcheck c then (None, self)
      else
        let target = path_join (work c) ''keyrings'';
            keyring = ''usr/share/pacman/keyrings/'';
            path = find_package_file self pkg
        in
          case (if os_path_exists self target then shutil_rmtree self target else (None, self)) of
            (Some e, self1) \<Rightarrow> (Some e, self1)
          | (None, self1) \<Rightarrow>
              (case os_makedirs self1 target of
                 (Some e, self2) \<Rightarrow> (Some e, self2)
               | (None, self2) \<Rightarrow>
                   (case path of
                      None \<Rightarrow>
                        (Some (RuntimeError (''package '' @ pkg_name pkg @ '' not found'')), self2)
                    | Some p \<Rightarrow>
                        (case nodes self2 p of
                           Some (File bytes) \<Rightarrow>
                             (case file_reader bytes of
                                Inl e \<Rightarrow> (Some e, self2)
                              | Inr archive \<Rightarrow>
                                  (case trust_keyring_extract target keyring archive [] self2 of
                                     (Inl e, self3) \<Rightarrow> (Some e, self3)
                                   | (Inr names, self3) \<Rightarrow>
                                       pouplate_keys c self3 (Some names) (Some target)))
                         | _ \<Rightarrow> (Some (OSError ''cannot open archive''), self2)))))"

section \<open>\<open>Pacman.lookup_package\<close>\<close>

text \<open>
  The native package database is a parameter: \<open>load_pkg\<close> and \<open>get_localdb\<close> of the
  handle, \<open>get_pkg\<close> of a database, and \<open>pyalpm.find_grp_pkgs\<close>. A package object is
  true in a condition; \<open>None\<close> is not.
\<close>

record ('db, 'pkg) alpm =
  load_pkg :: "string \<Rightarrow> 'pkg option"
  get_localdb :: "'db"
  get_pkg :: "'db \<Rightarrow> string \<Rightarrow> 'pkg option"
  find_grp_pkgs :: "'db list \<Rightarrow> string \<Rightarrow> 'pkg list"

text \<open>\<open>name.split("/")\<close>.\<close>

fun split_slash :: "string \<Rightarrow> string list" where
  "split_slash [] = [[]]"
| "split_slash (ch # cs) =
     (if ch = CHR ''/'' then [] # split_slash cs
      else (case split_slash cs of
              [] \<Rightarrow> [[ch]]
            | w # ws \<Rightarrow> (ch # w) # ws))"

text \<open>
  \<open>self.databases\<close> is a dictionary: an association list in insertion order. The loop
  runs over its keys and reads each value back through the key.
\<close>

fun lookup_package_dbs ::
  "('db, 'pkg) alpm \<Rightarrow> (string \<times> 'db) list \<Rightarrow> string list \<Rightarrow> string \<Rightarrow> error + 'pkg list" where
  "lookup_package_dbs h databases [] name =
     Inl (ValueError (''package '' @ name @ '' not found''))"
| "lookup_package_dbs h databases (dbn # rest) name =
     (case map_of databases dbn of
        None \<Rightarrow> Inl (KeyError dbn)
      | Some db \<Rightarrow>
          (case get_pkg h db name of
             Some pkg \<Rightarrow> Inr [pkg]
           | None \<Rightarrow> lookup_package_dbs h databases rest name))"

definition lookup_package ::
  "('db, 'pkg) alpm \<Rightarrow> (string \<times> 'db) list \<Rightarrow> string \<Rightarrow> error + 'pkg list" where
  "lookup_package h databases name =
     (if sublist ''.pkg.tar.'' name
      then (case load_pkg h name of
              None \<Rightarrow> Inl (RuntimeError (''load package '' @ name @ '' failed''))
            | Some pkg \<Rightarrow> Inr [pkg])
      else
        let s = split_slash name in
        if length s = 2
        then
          (let s0 = s ! 0; s1 = s ! 1 in
           if map_of databases s0 = None \<and> s0 \<noteq> ''local''
           then Inl (ValueError (''database '' @ s0 @ '' not found''))
           else
             (case (if s0 = ''local'' then Some (get_localdb h) else map_of databases s0) of
                None \<Rightarrow> Inl (KeyError s0)
              | Some db \<Rightarrow>
                  (case get_pkg h db s1 of
                     Some pkg \<Rightarrow> Inr [pkg]
                   | None \<Rightarrow> Inl (ValueError (''package '' @ s1 @ '' not found'')))))
        else if length s = 1
        then
          (let pkg = find_grp_pkgs h (map snd databases) name in
           if length pkg > 0 then Inr pkg
           else lookup_package_dbs h databases (map fst databases) name)
        else Inl (ValueError (''bad package name '' @ name)))"

section \<open>Definitions used to state the properties\<close>

subsection \<open>Resolved servers\<close>

text \<open>
  The server list the resolution is expected to build, written as the specification
  words it: for each mirror of the catalog, for each of its mappings, for each literal
  original URL that starts with the mapping's original prefix, one mirror server whose
  URL is the mirror prefix followed by the rest of the original URL; then one original
  server per literal original URL.
\<close>

definition mirror_server :: "string \<Rightarrow> string \<Rightarrow> string \<Rightarrow> string \<Rightarrow> PacmanRepoServer" where
  "mirror_server mname orig mir original =
     \<lparr>srv_url = Some (mir @ drop (length orig) original), srv_name = Some mname, srv_mirror = True\<rparr>"

definition original_server :: "string \<Rightarrow> PacmanRepoServer" where
  "original_server original = \<lparr>srv_url = Some original, srv_name = None, srv_mirror = False\<rparr>"

definition expected_mapping_servers :: "string \<Rightarrow> mapping_decl \<Rightarrow> string list \<Rightarrow> PacmanRepoServer list" where
  "expected_mapping_servers mname mp originals =
     (case (m_original mp, m_mirror mp) of
        (Some orig, Some mir) \<Rightarrow>
          map (mirror_server mname orig mir) (filter (\<lambda>original. startswith original orig) originals)
      | _ \<Rightarrow> [])"

definition expected_mirror_servers :: "mirror_decl list \<Rightarrow> string list \<Rightarrow> PacmanRepoServer list" where
  "expected_mirror_servers mirrors originals =
     concat (map (\<lambda>m.
       (case (mir_name m, mir_repos m) of
          (Some mname, Some ms) \<Rightarrow> concat (map (\<lambda>mp. expected_mapping_servers mname mp originals) ms)
        | _ \<Rightarrow> [])) mirrors)"

definition expected_original_servers :: "string list \<Rightarrow> PacmanRepoServer list" where
  "expected_original_servers originals = map original_server originals"

text \<open>Whether any mapping of the catalog matches any of the original URLs.\<close>

definition mapping_matches :: "mapping_decl \<Rightarrow> string \<Rightarrow> bool" where
  "mapping_matches mp original =
     (case m_original mp of Some orig \<Rightarrow> startswith original orig | None \<Rightarrow> False)"

definition any_mirror_matches :: "mirror_decl list \<Rightarrow> string list \<Rightarrow> bool" where
  "any_mirror_matches mirrors originals =
     list_ex (\<lambda>m. list_ex (\<lambda>mp. list_ex (mapping_matches mp) originals)
                     (case mir_repos m of Some ms \<Rightarrow> ms | None \<Rightarrow> [])) mirrors"

subsection \<open>Rendered sections\<close>

text \<open>
  The lines of one repository section: the header, then either the single include line
  (bootstrap context and a mirrorlist configured) or, per server, a comment line and a
  server line.
\<close>

definition comment_line :: "PacmanRepoServer \<Rightarrow> string" where
  "comment_line server =
     (if srv_mirror server then ''# Mirror '' @ py_str (srv_name server) @ ''\<newline>''
      else ''# Original Repo\<newline>'')"

definition server_line :: "PacmanRepoServer \<Rightarrow> string" where
  "server_line server = ''Server = '' @ py_str (srv_url server) @ ''\<newline>''"

definition header_line :: "PacmanRepo \<Rightarrow> string" where
  "header_line repo = ''['' @ py_str (repo_name repo) @ '']\<newline>''"

definition include_line :: "PacmanRepo \<Rightarrow> string" where
  "include_line repo = ''Include = /etc/pacman.d/'' @ py_str (repo_name repo) @ ''-mirrorlist\<newline>''"

definition repo_section :: "bool \<Rightarrow> PacmanRepo \<Rightarrow> string list" where
  "repo_section rootfs repo =
     header_line repo #
       (if rootfs \<and> mirrorlist repo \<noteq> None then [include_line repo]
        else concat (map (\<lambda>server. [comment_line server, server_line server]) (servers repo)))"

subsection \<open>Keyring files of an archive\<close>

text \<open>
  The entries the extraction writes: those whose path starts with the keyring prefix and
  has a non-empty rest; the rest is the file name. The key identifiers are the file names
  that end in \<open>.gpg\<close>, without these four characters.
\<close>

definition is_keyring_entry :: "string \<Rightarrow> entry \<Rightarrow> bool" where
  "is_keyring_entry keyring ent =
     (startswith (pathname ent) keyring \<and> drop (length keyring) (pathname ent) \<noteq> [])"

definition entry_filename :: "string \<Rightarrow> entry \<Rightarrow> string" where
  "entry_filename keyring ent = drop (length keyring) (pathname ent)"

definition keyring_files :: "string \<Rightarrow> entry list \<Rightarrow> string list" where
  "keyring_files keyring archive =
     map (entry_filename keyring) (filter (is_keyring_entry keyring) archive)"

definition strip_gpg :: "string \<Rightarrow> string" where
  "strip_gpg fn = take (length fn - 4) fn"

definition key_names :: "string list \<Rightarrow> string list" where
  "key_names fns = map strip_gpg (filter (\<lambda>fn. endswith fn ''.gpg'') fns)"

text \<open>
  The scratch directory, \<open>target\<close> in \<open>trust_keyring_pkg\<close>, and the command
  \<open>pouplate_keys(names, target)\<close> hands to \<open>pacman-key\<close>.
\<close>

definition keyrings_dir :: "ctx \<Rightarrow> string" where
  "keyrings_dir c = path_join (work c) ''keyrings''"

definition pacman_key_populate :: "ctx \<Rightarrow> pacman \<Rightarrow> string list \<Rightarrow> string list" where
  "pacman_key_populate c self names =
     [''pacman-key'', ''--gpgdir='' @ path_join (root self) ''etc/pacman.d/gnupg'',
      ''--config='' @ path_join (work c) ''pacman.conf'',
      ''--populate'', ''--populate-from'', keyrings_dir c] @ names"

subsection \<open>Package lookup\<close>

text \<open>The first package that the databases, in the order given, hold under a name.\<close>

definition first_package :: "('db, 'pkg) alpm \<Rightarrow> 'db list \<Rightarrow> string \<Rightarrow> 'pkg option" where
  "first_package h dbs name =
     (case List.map_filter (\<lambda>db. get_pkg h db name) dbs of [] \<Rightarrow> None | pkg # _ \<Rightarrow> Some pkg)"

section \<open>Example inputs\<close>

text \<open>
  A context with one mirror, a configuration with one repository, and a file system with
  a cached keyring package, a scratch directory left by an earlier extraction, an earlier
  configuration artifact and a file outside the work directory. \<open>ex_resolve\<close> resolves
  templates that have no placeholder.
\<close>

definition ex_resolve :: "string \<Rightarrow> (string \<times> string) list \<Rightarrow> string" where
  "ex_resolve template vals = template"

definition ex_mirror :: mirror_decl where
  "ex_mirror = \<lparr>mir_name = Some ''fast'',
      mir_repos = Some [\<lparr>m_original = Some ''https://example.org/'',
                         m_mirror = Some ''https://mirror.example/''\<rparr>]\<rparr>"

definition ex_ctx :: ctx where
  "ex_ctx = \<lparr>work = ''/work'', tgt_arch = ''x86_64'', gpgcheck = True,
      ctx_mirrors = Some [ex_mirror], run_external = (\<lambda>cmds. 0)\<rparr>"

definition ex_decl :: repo_decl where
  "ex_decl = \<lparr>d_name = Some ''core'', d_priority = None, d_mirrorlist = None,
      d_publickey = None, d_keyid = None,
      d_server = Some ''https://example.org/core/os/x86_64'', d_servers = None\<rparr>"

definition ex_nodes :: "string \<Rightarrow> node option" where
  "ex_nodes = (\<lambda>p. None)
     (''/work/packages/keyring.pkg.tar.zst'' \<mapsto> File ''K'',
      ''/work/keyrings'' \<mapsto> Dir,
      ''/work/keyrings/stale.gpg'' \<mapsto> File ''old'',
      ''/work/pacman.conf'' \<mapsto> File ''stale'',
      ''/etc/passwd'' \<mapsto> File ''root'')"

definition ex_pacman :: pacman where
  "ex_pacman = \<lparr>config = \<lparr>c_repo = Some [ex_decl]\<rparr>, root = ''/work/rootfs'',
      handle_gpgdir = ''/work/rootfs/etc/pacman.d/gnupg'',
      handle_logfile = ''/work/pacman.log'',
      caches = [''/work/packages''], repos = [],
      nodes = ex_nodes, meta = (\<lambda>p. None), calls = []\<rparr>"

definition ex_server_mirror :: PacmanRepoServer where
  "ex_server_mirror = \<lparr>srv_url = Some ''https://mirror.example/core/os/x86_64'',
      srv_name = Some ''fast'', srv_mirror = True\<rparr>"

definition ex_server_original :: PacmanRepoServer where
  "ex_server_original = \<lparr>srv_url = Some ''https://example.org/core/os/x86_64'',
      srv_name = None, srv_mirror = False\<rparr>"

definition ex_repo :: PacmanRepo where
  "ex_repo = \<lparr>repo_name = Some ''core'', priority = 10000,
      servers = [ex_server_mirror, ex_server_original],
      mirrorlist = None, publickey = None, keyid = None\<rparr>"

definition ex_repo_low :: PacmanRepo where
  "ex_repo_low = \<lparr>repo_name = Some ''custom'', priority = 5,
      servers = [ex_server_original], mirrorlist = Some ''https://example.org/mirrorlist'',
      publickey = None, keyid = None\<rparr>"

definition ex_repo_extra :: PacmanRepo where
  "ex_repo_extra = \<lparr>repo_name = Some ''extra'', priority = 10000,
      servers = [ex_server_original], mirrorlist = None, publickey = None, keyid = None\<rparr>"

text \<open>Declarations with only the key \<open>servers\<close>, with both keys, and with a public key but no key id.\<close>

definition ex_decl_servers :: repo_decl where
  "ex_decl_servers = \<lparr>d_name = Some ''core'', d_priority = None, d_mirrorlist = None,
      d_publickey = None, d_keyid = None,
      d_server = None, d_servers = Some [''https://example.org/$repo/os/$arch'']\<rparr>"

definition ex_decl_both :: repo_decl where
  "ex_decl_both = \<lparr>d_name = Some ''core'', d_priority = None, d_mirrorlist = None,
      d_publickey = None, d_keyid = None,
      d_server = Some ''ab'', d_servers = Some [''https://example.org/$repo/os/$arch'']\<rparr>"

definition ex_decl_publickey :: repo_decl where
  "ex_decl_publickey = \<lparr>d_name = Some ''custom'', d_priority = None, d_mirrorlist = None,
      d_publickey = Some ''https://example.org/key.pub'', d_keyid = None,
      d_server = Some ''https://example.org/custom'', d_servers = None\<rparr>"

definition ex_pacman_publickey :: pacman where
  "ex_pacman_publickey = ex_pacman\<lparr>config := \<lparr>c_repo = Some [ex_decl, ex_decl_publickey]\<rparr>\<rparr>"

text \<open>A package database in which the name \<open>xorg\<close> is both a group and a package.\<close>

definition ex_alpm :: "(string, string) alpm" where
  "ex_alpm = \<lparr>load_pkg = (\<lambda>path. None), get_localdb = ''local'',
      get_pkg = (\<lambda>db name. if name = ''xorg'' \<and> db = ''extra'' then Some ''extra/xorg''
                            else if name = ''vim'' \<and> db = ''extra'' then Some ''extra/vim''
                            else None),
      find_grp_pkgs = (\<lambda>dbs name. if name = ''xorg'' then [''xorg-server'', ''xorg-xinit''] else [])\<rparr>"

definition ex_databases :: "(string \<times> string) list" where
  "ex_databases = [(''core'', ''core''), (''extra'', ''extra'')]"

text \<open>The same state on an empty file system, and a registry of two repositories.\<close>

definition ex_pacman_clean :: pacman where
  "ex_pacman_clean = ex_pacman\<lparr>nodes := Map.empty\<rparr>"

definition ex_pacman_two :: pacman where
  "ex_pacman_two = ex_pacman\<lparr>repos := [ex_repo_low, ex_repo]\<rparr>"

text \<open>
  A keyring package and the entries of its archive; an archive with an absolute path
  after the keyring prefix; an archive with the same key file twice; a package that is
  in no cache; the context with signature checking off.
\<close>

definition ex_pkg :: package where
  "ex_pkg = \<lparr>pkg_name = ''keyring'', pkg_filename = ''keyring.pkg.tar.zst''\<rparr>"

definition ex_archive :: "entry list" where
  "ex_archive =
     [\<lparr>pathname = ''usr/share/pacman/keyrings/'', blocks = [], mode = 493, uid = 0, gid = 0\<rparr>,
      \<lparr>pathname = ''usr/share/pacman/keyrings/archlinux.gpg'', blocks = [''k1'', ''k2''],
        mode = 420, uid = 0, gid = 0\<rparr>,
      \<lparr>pathname = ''usr/share/pacman/keyrings/archlinux-trusted'', blocks = [''t''],
        mode = 420, uid = 0, gid = 0\<rparr>,
      \<lparr>pathname = ''usr/bin/tool'', blocks = [''x''], mode = 493, uid = 0, gid = 0\<rparr>]"

definition ex_reader :: "string \<Rightarrow> error + entry list" where
  "ex_reader bytes = Inr ex_archive"


definition dup_reader :: "string \<Rightarrow> error + entry list" where
  "dup_reader bytes =
     Inr [\<lparr>pathname = ''usr/share/pacman/keyrings/dup.gpg'', blocks = [''one''],
           mode = 420, uid = 0, gid = 0\<rparr>,
          \<lparr>pathname = ''usr/share/pacman/keyrings/dup.gpg'', blocks = [''two''],
           mode = 420, uid = 0, gid = 0\<rparr>]"



section \<open>The registry stays sorted, and the sort is stable\<close>

lemma add_repo_None:
  "add_repo self r = (None, self') \<Longrightarrow> self' = self\<lparr>repos := sort_key priority (repos self @ [r])\<rparr>"
  by (auto simp: add_repo_def split: if_splits)

lemma add_repo_Some:
  "add_repo self r = (Some e, self') \<Longrightarrow> self' = self"
  by (auto simp: add_repo_def split: if_splits)

lemma add_repo_seq_prefix:
  "add_repo_seq self rs = (e, self') \<Longrightarrow>
     \<exists>n \<le> length rs. (e = None \<longrightarrow> n = length rs) \<and>
        (\<forall>k. filter (\<lambda>r. priority r = k) (repos self') = filter (\<lambda>r. priority r = k) (repos self @ take n rs))
      \<and> (sorted (map priority (repos self)) \<longrightarrow> sorted (map priority (repos self')))"
proof (induction rs arbitrary: self)
  case Nil
  then show ?case by auto
next
  case (Cons r rs)
  show ?case
  proof (cases "add_repo self r")
    case (Pair eo s1)
    show ?thesis
    proof (cases eo)
      case None
      with Pair have s1: "s1 = self\<lparr>repos := sort_key priority (repos self @ [r])\<rparr>"
        using add_repo_None by blast
      from Cons.prems Pair None have "add_repo_seq s1 rs = (e, self')" by simp
      from Cons.IH[OF this] obtain n where n: "n \<le> length rs" "e = None \<longrightarrow> n = length rs"
        "\<forall>k. filter (\<lambda>r. priority r = k) (repos self') = filter (\<lambda>r. priority r = k) (repos s1 @ take n rs)"
        "sorted (map priority (repos s1)) \<longrightarrow> sorted (map priority (repos self'))"
        by blast
      have "\<forall>k. filter (\<lambda>r. priority r = k) (repos self') = filter (\<lambda>x. priority x = k) (repos self @ take (Suc n) (r # rs))"
        using n(3) by (simp add: s1 sort_key_stable)
      moreover have "sorted (map priority (repos self'))" using n(4) by (simp add: s1)
      ultimately show ?thesis using n(1,2) by (intro exI[of _ "Suc n"]) auto
    next
      case (Some err)
      with Pair Cons.prems have "e = Some err" "self' = self" using add_repo_Some by auto
      then show ?thesis by (intro exI[of _ 0]) auto
    qed
  qed
qed

text \<open>
  Claim C7. After any sequence of \<open>add_repo\<close> calls on a sorted registry (the empty one
  in particular) the registry is sorted ascending by priority, and for every priority
  the repositories of that priority are, in this order, those already registered
  followed by those added, in the order of the calls: equal priorities keep their
  insertion order. \<open>n\<close> is the number of calls made before an exception, all of them
  when there is none.
\<close>

theorem add_repo_sorted_stable:
  assumes "add_repo_seq self rs = (e, self')" and "sorted (map priority (repos self))"
  shows "sorted (map priority (repos self')) \<and>
         (\<exists>n \<le> length rs. (e = None \<longrightarrow> n = length rs) \<and>
            (\<forall>k. filter (\<lambda>r. priority r = k) (repos self') =
                 filter (\<lambda>r. priority r = k) (repos self @ take n rs)))"
  using add_repo_seq_prefix[OF assms(1)] assms(2) by blast

text \<open>
  Witness for C7: three repositories are added to the empty registry, the last with the
  lowest priority; the two with priority 10000 keep their order.
\<close>

lemma ex_add_repo_seq:
  "add_repo_seq ex_pacman [ex_repo, ex_repo_extra, ex_repo_low] =
     (None, ex_pacman\<lparr>repos := [ex_repo_low, ex_repo, ex_repo_extra]\<rparr>)"
  by (simp add: add_repo_def ex_repo_def ex_repo_extra_def ex_repo_low_def ex_pacman_def)

theorem add_repo_sorted_stable_witness:
  "add_repo_seq ex_pacman [ex_repo, ex_repo_extra, ex_repo_low] =
     (None, ex_pacman\<lparr>repos := [ex_repo_low, ex_repo, ex_repo_extra]\<rparr>) \<and>
   sorted (map priority (repos ex_pacman)) \<and>
   sorted (map priority [ex_repo_low, ex_repo, ex_repo_extra]) \<and>
   filter (\<lambda>r. priority r = 10000) [ex_repo_low, ex_repo, ex_repo_extra] =
     filter (\<lambda>r. priority r = 10000) [ex_repo, ex_repo_extra, ex_repo_low]"
proof -
  have h1: "add_repo_seq ex_pacman [ex_repo, ex_repo_extra, ex_repo_low] =
     (None, ex_pacman\<lparr>repos := [ex_repo_low, ex_repo, ex_repo_extra]\<rparr>)"
    by (rule ex_add_repo_seq)
  have h2: "sorted (map priority (repos ex_pacman))" by (simp add: ex_pacman_def)
  have r0: "repos ex_pacman = []" by (simp add: ex_pacman_def)
  from add_repo_sorted_stable[OF h1 h2] h1 h2 show ?thesis by (simp add: r0)
qed

section \<open>Mirror servers first, original servers last\<close>

lemma init_repos_match_eq:
  "init_repos_match mname orig mir originals pr =
     pr\<lparr>servers := servers pr @
        map (mirror_server mname orig mir) (filter (\<lambda>original. startswith original orig) originals)\<rparr>"
  by (induction originals arbitrary: pr)
     (simp_all add: add_server_def PacmanRepoServer_init_def mirror_server_def)

lemma init_repos_mappings_eq:
  "init_repos_mappings mname ms originals pr = Inr pr' \<Longrightarrow>
     pr' = pr\<lparr>servers := servers pr @ concat (map (\<lambda>mp. expected_mapping_servers mname mp originals) ms)\<rparr>"
proof (induction ms arbitrary: pr)
  case Nil
  then show ?case by simp
next
  case (Cons mp ms)
  from Cons.prems obtain orig mir where om: "m_original mp = Some orig" "m_mirror mp = Some mir"
    by (auto split: option.splits)
  with Cons.prems have
    "init_repos_mappings mname ms originals (init_repos_match mname orig mir originals pr) = Inr pr'"
    by simp
  from Cons.IH[OF this] show ?case
    by (simp add: init_repos_match_eq expected_mapping_servers_def om)
qed

lemma init_repos_mirrors_eq:
  "init_repos_mirrors mirrors originals pr = Inr pr' \<Longrightarrow>
     pr' = pr\<lparr>servers := servers pr @ expected_mirror_servers mirrors originals\<rparr>"
proof (induction mirrors arbitrary: pr)
  case Nil
  then show ?case by (simp add: expected_mirror_servers_def)
next
  case (Cons m mirrors)
  from Cons.prems obtain mname ms pr1 where m: "mir_name m = Some mname" "mir_repos m = Some ms"
    and pr1: "init_repos_mappings mname ms originals pr = Inr pr1"
    and rest: "init_repos_mirrors mirrors originals pr1 = Inr pr'"
    by (auto split: option.splits sum.splits)
  from Cons.IH[OF rest] init_repos_mappings_eq[OF pr1] show ?case
    by (simp add: expected_mirror_servers_def m)
qed

lemma init_repos_add_originals_eq:
  "init_repos_add_originals originals pr =
     pr\<lparr>servers := servers pr @ expected_original_servers originals\<rparr>"
  by (induction originals arbitrary: pr)
     (simp_all add: add_server_def PacmanRepoServer_init_def original_server_def
        expected_original_servers_def)

lemma init_repos_repo_servers:
  assumes "init_repos_repo rsv c repo = Inr r"
  shows "\<exists>n servers0. d_name repo = Some n \<and> repo_name r = Some n \<and>
           init_repos_servers repo = Inr servers0 \<and> servers0 \<noteq> [] \<and>
           servers r =
             expected_mirror_servers (get_mirrors c)
                (init_repos_originals rsv c n servers0)
             @ expected_original_servers (init_repos_originals rsv c n servers0)"
proof -
  from assms obtain n where n: "d_name repo = Some n"
    by (auto simp: init_repos_repo_def split: option.splits)
  from assms n obtain servers0 where s0: "init_repos_servers repo = Inr servers0" "servers0 \<noteq> []"
    by (auto simp: init_repos_repo_def Let_def split: if_splits sum.splits)
  define originals where "originals = init_repos_originals rsv c n servers0"
  define mirrors where "mirrors = get_mirrors c"
  define pr0 where "pr0 =
     (let pacman_repo = PacmanRepo_init (Some n);
          pacman_repo = (case d_priority repo of
                           Some p \<Rightarrow> pacman_repo\<lparr>priority := p\<rparr>
                         | None \<Rightarrow> pacman_repo);
          pacman_repo = (case d_mirrorlist repo of
                           Some m \<Rightarrow> pacman_repo\<lparr>mirrorlist := Some m\<rparr>
                         | None \<Rightarrow> pacman_repo);
          pacman_repo = (case d_publickey repo of
                           Some k \<Rightarrow> pacman_repo\<lparr>publickey := Some k\<rparr>
                         | None \<Rightarrow> pacman_repo)
      in (case d_keyid repo of
            Some k \<Rightarrow> pacman_repo\<lparr>keyid := Some k\<rparr>
          | None \<Rightarrow> pacman_repo))"
  have pr0: "repo_name pr0 = Some n" "servers pr0 = []"
    by (simp_all add: pr0_def PacmanRepo_init_def Let_def split: option.splits)
  from assms obtain pr1 where pr1: "init_repos_mirrors mirrors originals pr0 = Inr pr1"
    and r: "r = init_repos_add_originals originals pr1"
    unfolding originals_def mirrors_def pr0_def init_repos_repo_def Let_def n s0
    by (simp split: if_splits sum.splits)
  from init_repos_mirrors_eq[OF pr1] r pr0
  have "repo_name r = Some n"
       "servers r = expected_mirror_servers mirrors originals @ expected_original_servers originals"
    by (simp_all add: init_repos_add_originals_eq)
  with n s0 show ?thesis unfolding originals_def mirrors_def by blast
qed

lemma init_repos_loop_repos:
  "init_repos_loop rsv c decls self = (e, self') \<Longrightarrow> r \<in> set (repos self') \<Longrightarrow>
     r \<in> set (repos self) \<or> (\<exists>repo \<in> set decls. init_repos_repo rsv c repo = Inr r)"
proof (induction decls arbitrary: self)
  case Nil
  then show ?case by simp
next
  case (Cons d decls)
  show ?case
  proof (cases "init_repos_repo rsv c d")
    case (Inl err)
    with Cons.prems show ?thesis by simp
  next
    case (Inr pr)
    show ?thesis
    proof (cases "add_repo self pr")
      case (Pair eo s1)
      show ?thesis
      proof (cases eo)
        case None
        with Pair have s1: "repos s1 = sort_key priority (repos self @ [pr])"
          by (auto simp: add_repo_def split: if_splits)
        from Cons.prems Inr Pair None have "init_repos_loop rsv c decls s1 = (e, self')" by simp
        from Cons.IH[OF this Cons.prems(2)] show ?thesis
          using s1 Inr by auto
      next
        case (Some err)
        with Pair Cons.prems Inr have "self' = self"
          by (auto simp: add_repo_def split: if_splits)
        with Cons.prems show ?thesis by simp
      qed
    qed
  qed
qed

lemma expected_mirror_servers_none:
  "\<not> any_mirror_matches mirrors originals \<Longrightarrow> expected_mirror_servers mirrors originals = []"
  unfolding expected_mirror_servers_def expected_mapping_servers_def any_mirror_matches_def
    mapping_matches_def
  by (auto simp: list_ex_iff filter_empty_conv split: option.splits)

text \<open>
  Claim C1. Every repository that \<open>init_repos\<close> puts into the registry comes from a
  declaration of the configuration, and its server list is the mirror servers (per
  mirror, mapping and matching original URL, in this order, marked as mirrors) followed
  by one server per literal original URL (not marked, in the order of the list
  \<open>originals\<close> of the code), nothing reordered; when no mapping matches, the list is the
  original servers alone. The literal original URLs are the list the code computes from
  the declaration.
\<close>

theorem init_repos_servers_order:
  assumes "init_repos rsv c self = (e, self')" and "r \<in> set (repos self')"
    and "r \<notin> set (repos self)"
  shows "\<exists>decls repo n servers0.
           c_repo (config self) = Some decls \<and> repo \<in> set decls \<and>
           d_name repo = Some n \<and> repo_name r = Some n \<and>
           init_repos_servers repo = Inr servers0 \<and> servers0 \<noteq> [] \<and>
           servers r =
             expected_mirror_servers (get_mirrors c) (init_repos_originals rsv c n servers0)
             @ expected_original_servers (init_repos_originals rsv c n servers0) \<and>
           (\<not> any_mirror_matches (get_mirrors c) (init_repos_originals rsv c n servers0) \<longrightarrow>
              servers r = expected_original_servers (init_repos_originals rsv c n servers0))"
proof -
  from assms obtain decls where d: "c_repo (config self) = Some decls"
    and l: "init_repos_loop rsv c decls self = (e, self')"
    by (cases "c_repo (config self)") (auto simp: init_repos_def)
  from init_repos_loop_repos[OF l assms(2)] assms(3)
  obtain repo where repo: "repo \<in> set decls" "init_repos_repo rsv c repo = Inr r" by blast
  from init_repos_repo_servers[OF repo(2)]
  obtain n servers0 where ns: "d_name repo = Some n" "repo_name r = Some n"
    "init_repos_servers repo = Inr servers0" "servers0 \<noteq> []"
    "servers r =
       expected_mirror_servers (get_mirrors c) (init_repos_originals rsv c n servers0)
       @ expected_original_servers (init_repos_originals rsv c n servers0)"
    by blast
  from ns(5) have "\<not> any_mirror_matches (get_mirrors c) (init_repos_originals rsv c n servers0) \<longrightarrow>
              servers r = expected_original_servers (init_repos_originals rsv c n servers0)"
    by (simp add: expected_mirror_servers_none)
  with d repo(1) ns show ?thesis by blast
qed

text \<open>
  Witness for C1: the original URL \<open>https://example.org/core/os/x86_64\<close> and the
  mapping from \<open>https://example.org/\<close> to \<open>https://mirror.example/\<close> give the mirror
  server followed by the original server.
\<close>

lemma ex_init_repos:
  "init_repos ex_resolve ex_ctx ex_pacman = (None, ex_pacman\<lparr>repos := [ex_repo]\<rparr>)"
  by (simp add: init_repos_def ex_pacman_def ex_decl_def init_repos_repo_def
        init_repos_servers_def init_repos_originals_def ex_resolve_def ex_ctx_def ex_mirror_def
        get_mirrors_def
        PacmanRepo_init_def add_server_def PacmanRepoServer_init_def startswith_def
        add_repo_def ex_repo_def ex_server_mirror_def ex_server_original_def Let_def)

theorem init_repos_servers_order_witness:
  "init_repos ex_resolve ex_ctx ex_pacman = (None, ex_pacman\<lparr>repos := [ex_repo]\<rparr>) \<and>
   ex_repo \<in> set (repos (ex_pacman\<lparr>repos := [ex_repo]\<rparr>)) \<and>
   ex_repo \<notin> set (repos ex_pacman) \<and>
   (\<exists>decls repo n servers0.
           c_repo (config ex_pacman) = Some decls \<and> repo \<in> set decls \<and>
           d_name repo = Some n \<and> repo_name ex_repo = Some n \<and>
           init_repos_servers repo = Inr servers0 \<and> servers0 \<noteq> [] \<and>
           servers ex_repo =
             expected_mirror_servers (get_mirrors ex_ctx) (init_repos_originals ex_resolve ex_ctx n servers0)
             @ expected_original_servers (init_repos_originals ex_resolve ex_ctx n servers0) \<and>
           (\<not> any_mirror_matches (get_mirrors ex_ctx) (init_repos_originals ex_resolve ex_ctx n servers0) \<longrightarrow>
              servers ex_repo = expected_original_servers (init_repos_originals ex_resolve ex_ctx n servers0)))"
proof -
  have h1: "init_repos ex_resolve ex_ctx ex_pacman = (None, ex_pacman\<lparr>repos := [ex_repo]\<rparr>)"
    by (rule ex_init_repos)
  have h2: "ex_repo \<in> set (repos (ex_pacman\<lparr>repos := [ex_repo]\<rparr>))" by simp
  have h3: "ex_repo \<notin> set (repos ex_pacman)" by (simp add: ex_pacman_def)
  from init_repos_servers_order[OF h1 h2 h3] h1 h2 h3 show ?thesis by blast
qed

section \<open>Original URLs under the key \<open>servers\<close>\<close>

text \<open>
  Claim C2. A declaration that configures its original URLs under the key \<open>servers\<close>
  alone does not get them resolved: the code reads \<open>repo["server"]\<close> under the test for
  \<open>servers\<close> and raises \<open>KeyError\<close>. With both keys the list under \<open>servers\<close> is
  never read, and the characters of the string under \<open>server\<close> are taken as further
  templates.
\<close>

theorem init_repos_servers_key_misread:
  "init_repos_repo rsv c ex_decl_servers = Inl (KeyError ''server'') \<and>
   init_repos_servers ex_decl_both = Inr [''ab'', ''a'', ''b'']"
  by (simp add: init_repos_repo_def init_repos_servers_def ex_decl_servers_def ex_decl_both_def
        PacmanRepo_init_def Let_def)

section \<open>A public key without a key id\<close>

lemma init_repos_servers_error:
  "init_repos_servers repo = Inl e \<Longrightarrow> e = KeyError ''server''"
  by (auto simp: init_repos_servers_def Let_def split: if_splits option.splits)

lemma init_repos_mappings_error:
  "init_repos_mappings mname ms originals pr = Inl e \<Longrightarrow> \<exists>msg. e = ArchBuilderConfigError msg"
  by (induction ms arbitrary: pr) (auto split: option.splits)

lemma init_repos_mirrors_error:
  "init_repos_mirrors mirrors originals pr = Inl e \<Longrightarrow> \<exists>msg. e = ArchBuilderConfigError msg"
  by (induction mirrors arbitrary: pr)
     (auto split: option.splits sum.splits dest: init_repos_mappings_error)

lemma init_repos_repo_error:
  assumes "init_repos_repo rsv c repo = Inl e"
  shows "(\<exists>msg. e = ArchBuilderConfigError msg) \<or> init_repos_servers repo = Inl (KeyError ''server'')"
proof (cases "init_repos_servers repo")
  case (Inl err)
  then show ?thesis using init_repos_servers_error by blast
next
  case (Inr servers0)
  with assms show ?thesis
    unfolding init_repos_repo_def Let_def
    by (auto split: option.splits if_splits sum.splits dest: init_repos_mirrors_error)
qed

lemma init_repos_repo_publickey:
  assumes "d_publickey repo \<noteq> None" "d_keyid repo = None"
  shows "\<exists>msg. init_repos_repo rsv c repo = Inl (ArchBuilderConfigError msg)"
  using assms unfolding init_repos_repo_def Let_def
  by (auto split: option.splits)

lemma add_repo_frame:
  "add_repo self r = (eo, self') \<Longrightarrow>
     calls self' = calls self \<and> nodes self' = nodes self \<and>
     (\<forall>e. eo = Some e \<longrightarrow> (\<exists>msg. e = ArchBuilderConfigError msg))"
  by (auto simp: add_repo_def split: if_splits)

lemma init_repos_loop_frame:
  "init_repos_loop rsv c decls self = (eo, self') \<Longrightarrow>
     calls self' = calls self \<and> nodes self' = nodes self \<and>
     (\<forall>e. eo = Some e \<longrightarrow> (\<exists>msg. e = ArchBuilderConfigError msg) \<or>
        (\<exists>d \<in> set decls. init_repos_servers d = Inl (KeyError ''server'')))"
proof (induction decls arbitrary: self)
  case Nil
  then show ?case by simp
next
  case (Cons d decls)
  show ?case
  proof (cases "init_repos_repo rsv c d")
    case (Inl err)
    with Cons.prems have "eo = Some err" "self' = self" by simp_all
    with init_repos_repo_error[OF Inl] show ?thesis by auto
  next
    case (Inr pr)
    obtain eo1 s1 where a: "add_repo self pr = (eo1, s1)" by (cases "add_repo self pr")
    show ?thesis
    proof (cases eo1)
      case None
      with Cons.prems Inr a have "init_repos_loop rsv c decls s1 = (eo, self')" by simp
      from Cons.IH[OF this] add_repo_frame[OF a] show ?thesis by auto
    next
      case (Some err)
      with Cons.prems Inr a have "eo = Some err" "self' = s1" by simp_all
      with add_repo_frame[OF a] Some show ?thesis by auto
    qed
  qed
qed

lemma init_repos_loop_fails:
  "repo \<in> set decls \<Longrightarrow> init_repos_repo rsv c repo = Inl e0 \<Longrightarrow>
     init_repos_loop rsv c decls self = (eo, self') \<Longrightarrow> eo \<noteq> None"
proof (induction decls arbitrary: self)
  case Nil
  then show ?case by simp
next
  case (Cons d decls)
  show ?case
  proof (cases "init_repos_repo rsv c d")
    case (Inl err)
    with Cons.prems show ?thesis by auto
  next
    case (Inr pr)
    with Cons.prems have mem: "repo \<in> set decls" by auto
    obtain eo1 s1 where a: "add_repo self pr = (eo1, s1)" by (cases "add_repo self pr")
    show ?thesis
    proof (cases eo1)
      case None
      with Cons.prems Inr a have "init_repos_loop rsv c decls s1 = (eo, self')" by simp
      from Cons.IH[OF mem Cons.prems(2) this] show ?thesis .
    next
      case (Some err)
      with Cons.prems Inr a show ?thesis by auto
    qed
  qed
qed

text \<open>
  Claim C9. A declaration with \<open>publickey\<close> and without \<open>keyid\<close> makes the body of the
  loop raise \<open>ArchBuilderConfigError\<close>. \<open>init_repos\<close> on a configuration that holds
  such a declaration raises, having run no external command and changed no file; what it
  raises is an \<open>ArchBuilderConfigError\<close> unless a declaration of the list runs into the
  \<open>KeyError\<close> of line 333.
\<close>

theorem init_repos_publickey_without_keyid:
  assumes "d_publickey repo \<noteq> None" and "d_keyid repo = None"
    and "c_repo (config self) = Some decls" and "repo \<in> set decls"
  shows "(\<exists>msg. init_repos_repo rsv c repo = Inl (ArchBuilderConfigError msg)) \<and>
         (\<exists>e self'. init_repos rsv c self = (Some e, self') \<and>
            calls self' = calls self \<and> nodes self' = nodes self \<and>
            ((\<forall>d \<in> set decls. init_repos_servers d \<noteq> Inl (KeyError ''server'')) \<longrightarrow>
               (\<exists>msg. e = ArchBuilderConfigError msg)))"
proof -
  from init_repos_repo_publickey[OF assms(1,2)]
  obtain msg where m: "init_repos_repo rsv c repo = Inl (ArchBuilderConfigError msg)" by blast
  obtain eo self' where l: "init_repos_loop rsv c decls self = (eo, self')"
    by (cases "init_repos_loop rsv c decls self")
  from init_repos_loop_fails[OF assms(4) m l] obtain e where e: "eo = Some e" by auto
  from init_repos_loop_frame[OF l] e
  have "calls self' = calls self" "nodes self' = nodes self"
    "(\<forall>d \<in> set decls. init_repos_servers d \<noteq> Inl (KeyError ''server'')) \<longrightarrow>
               (\<exists>msg. e = ArchBuilderConfigError msg)"
    by auto
  moreover have "init_repos rsv c self = (Some e, self')"
    using l e assms(3) by (simp add: init_repos_def)
  ultimately show ?thesis using m by blast
qed

text \<open>Witness for C9: the second declaration of the configuration has a public key and no key id.\<close>

theorem init_repos_publickey_without_keyid_witness:
  "d_publickey ex_decl_publickey \<noteq> None \<and> d_keyid ex_decl_publickey = None \<and>
   c_repo (config ex_pacman_publickey) = Some [ex_decl, ex_decl_publickey] \<and>
   ex_decl_publickey \<in> set [ex_decl, ex_decl_publickey] \<and>
   (\<exists>msg. init_repos_repo ex_resolve ex_ctx ex_decl_publickey = Inl (ArchBuilderConfigError msg)) \<and>
   (\<exists>e self'. init_repos ex_resolve ex_ctx ex_pacman_publickey = (Some e, self') \<and>
      calls self' = calls ex_pacman_publickey \<and> nodes self' = nodes ex_pacman_publickey \<and>
      ((\<forall>d \<in> set [ex_decl, ex_decl_publickey]. init_repos_servers d \<noteq> Inl (KeyError ''server'')) \<longrightarrow>
         (\<exists>msg. e = ArchBuilderConfigError msg)))"
proof -
  have h1: "d_publickey ex_decl_publickey \<noteq> None" by (simp add: ex_decl_publickey_def)
  have h2: "d_keyid ex_decl_publickey = None" by (simp add: ex_decl_publickey_def)
  have h3: "c_repo (config ex_pacman_publickey) = Some [ex_decl, ex_decl_publickey]"
    by (simp add: ex_pacman_publickey_def)
  have h4: "ex_decl_publickey \<in> set [ex_decl, ex_decl_publickey]" by simp
  from init_repos_publickey_without_keyid[OF h1 h2 h3 h4, of ex_resolve ex_ctx] h1 h2 h3 h4
  show ?thesis by blast
qed

section \<open>Rendering the repository sections\<close>

lemma append_repos_servers_eq:
  "append_repos_servers ss lines =
     lines @ concat (map (\<lambda>server. [comment_line server, server_line server]) ss)"
  by (induction ss arbitrary: lines) (simp_all add: comment_line_def server_line_def)

lemma append_repos_loop_eq:
  "append_repos_loop rs rootfs lines = lines @ concat (map (repo_section rootfs) rs)"
proof (induction rs arbitrary: lines)
  case Nil
  then show ?case by simp
next
  case (Cons repo rs)
  have "append_repos_loop (repo # rs) rootfs lines =
          append_repos_loop rs rootfs (lines @ repo_section rootfs repo)"
    by (auto simp: Let_def repo_section_def header_line_def include_line_def
          append_repos_servers_eq)
  then show ?case by (simp add: Cons.IH)
qed

lemma server_lines_filter:
  "filter (\<lambda>l. startswith l ''Server = '')
      (concat (map (\<lambda>server. [comment_line server, server_line server]) ss)) = map server_line ss"
  by (induction ss) (simp_all add: startswith_def comment_line_def server_line_def)

text \<open>
  Claim C8. \<open>append_repos\<close> appends one section per repository of the registry, in
  registry order. In bootstrap context a repository with a mirrorlist gets its header,
  exactly one \<open>Include\<close> line naming its own mirrorlist file, and no \<open>Server\<close> line.
  Otherwise the section is the header and, per resolved server in order, a comment line
  followed by the \<open>Server\<close> line; the comment is \<open># Original Repo\<close> exactly for the
  servers that are not mirrors.
\<close>

theorem append_repos_sections:
  "append_repos self lines rootfs = lines @ concat (map (repo_section rootfs) (repos self)) \<and>
   (rootfs \<and> mirrorlist repo \<noteq> None \<longrightarrow>
      repo_section rootfs repo = [header_line repo, include_line repo] \<and>
      filter (\<lambda>l. startswith l ''Server = '') (repo_section rootfs repo) = [] \<and>
      filter (\<lambda>l. startswith l ''Include = '') (repo_section rootfs repo) = [include_line repo]) \<and>
   (\<not> (rootfs \<and> mirrorlist repo \<noteq> None) \<longrightarrow>
      repo_section rootfs repo =
        header_line repo #
          concat (map (\<lambda>server. [comment_line server, server_line server]) (servers repo)) \<and>
      filter (\<lambda>l. startswith l ''Server = '') (repo_section rootfs repo) =
        map server_line (servers repo) \<and>
      (\<forall>server \<in> set (servers repo).
         (comment_line server = ''# Original Repo\<newline>'') = (\<not> srv_mirror server)))"
proof -
  have a: "append_repos self lines rootfs = lines @ concat (map (repo_section rootfs) (repos self))"
    by (simp add: append_repos_def append_repos_loop_eq)
  have b: "rootfs \<and> mirrorlist repo \<noteq> None \<longrightarrow>
      repo_section rootfs repo = [header_line repo, include_line repo] \<and>
      filter (\<lambda>l. startswith l ''Server = '') (repo_section rootfs repo) = [] \<and>
      filter (\<lambda>l. startswith l ''Include = '') (repo_section rootfs repo) = [include_line repo]"
    by (simp add: repo_section_def header_line_def include_line_def startswith_def)
  have c1: "\<not> startswith (header_line repo) ''Server = ''"
    by (simp add: header_line_def startswith_def)
  have c: "\<not> (rootfs \<and> mirrorlist repo \<noteq> None) \<longrightarrow>
      repo_section rootfs repo =
        header_line repo #
          concat (map (\<lambda>server. [comment_line server, server_line server]) (servers repo)) \<and>
      filter (\<lambda>l. startswith l ''Server = '') (repo_section rootfs repo) =
        map server_line (servers repo)"
    using c1 by (auto simp: repo_section_def server_lines_filter)
  have d: "\<forall>server \<in> set (servers repo).
         (comment_line server = ''# Original Repo\<newline>'') = (\<not> srv_mirror server)"
    by (simp add: comment_line_def)
  from a b c d show ?thesis by blast
qed

text \<open>
  Witness for C8: a registry of a repository with a mirrorlist and one without, rendered
  in bootstrap context.
\<close>

theorem append_repos_sections_witness:
  "mirrorlist ex_repo_low \<noteq> None \<and> mirrorlist ex_repo = None \<and>
   append_repos ex_pacman_two [] True = [] @ concat (map (repo_section True) (repos ex_pacman_two)) \<and>
   repo_section True ex_repo_low = [header_line ex_repo_low, include_line ex_repo_low] \<and>
   filter (\<lambda>l. startswith l ''Server = '') (repo_section True ex_repo_low) = [] \<and>
   filter (\<lambda>l. startswith l ''Server = '') (repo_section True ex_repo) =
     map server_line (servers ex_repo) \<and>
   append_repos ex_pacman_two [] True =
     [''[custom]\<newline>'', ''Include = /etc/pacman.d/custom-mirrorlist\<newline>'',
      ''[core]\<newline>'', ''# Mirror fast\<newline>'', ''Server = https://mirror.example/core/os/x86_64\<newline>'',
      ''# Original Repo\<newline>'', ''Server = https://example.org/core/os/x86_64\<newline>'']"
proof -
  have h1: "True \<and> mirrorlist ex_repo_low \<noteq> None" by (simp add: ex_repo_low_def)
  have h2: "\<not> (True \<and> mirrorlist ex_repo \<noteq> None)" by (simp add: ex_repo_def)
  have v: "append_repos ex_pacman_two [] True =
     [''[custom]\<newline>'', ''Include = /etc/pacman.d/custom-mirrorlist\<newline>'',
      ''[core]\<newline>'', ''# Mirror fast\<newline>'', ''Server = https://mirror.example/core/os/x86_64\<newline>'',
      ''# Original Repo\<newline>'', ''Server = https://example.org/core/os/x86_64\<newline>'']"
    by (simp add: append_repos_def ex_pacman_two_def ex_repo_low_def ex_repo_def py_str_def
          ex_server_mirror_def ex_server_original_def Let_def)
  from append_repos_sections[of ex_pacman_two "[]" True ex_repo_low]
       append_repos_sections[of ex_pacman_two "[]" True ex_repo] h1 h2 v
  show ?thesis by blast
qed

section \<open>Rendering is determined by the registry and the options\<close>

lemma append_config_caches_eq:
  "append_config_caches cs lines = lines @ map (\<lambda>cache. ''CacheDir = '' @ cache @ ''\<newline>'') cs"
  by (induction cs arbitrary: lines) simp_all

lemma append_config_prefix:
  "append_config c self lines = lines @ append_config c self []"
  by (simp add: append_config_def Let_def append_repos_def append_repos_loop_eq
        append_config_caches_eq)

lemma append_config_cong:
  assumes "repos self1 = repos self2" "caches self1 = caches self2" "root self1 = root self2"
    "handle_gpgdir self1 = handle_gpgdir self2" "handle_logfile self1 = handle_logfile self2"
  shows "append_config c self1 lines = append_config c self2 lines"
  using assms by (simp add: append_config_def Let_def append_repos_def)

lemma init_config_result:
  assumes "nodes self (path_join (work c) ''pacman.conf'') \<noteq> Some Dir"
  shows "fst (init_config c self) = None \<and>
         nodes (snd (init_config c self)) =
           (nodes self)(path_join (work c) ''pacman.conf'' \<mapsto> File (concat (append_config c self [])))"
proof (cases "nodes self (path_join (work c) ''pacman.conf'')")
  case None
  then show ?thesis
    by (simp add: init_config_def Let_def os_path_exists_def write_file_def)
next
  case (Some nd)
  with assms obtain x where x: "nd = File x" by (cases nd) auto
  have "append_config c (self\<lparr>nodes := (nodes self)(path_join (work c) ''pacman.conf'' := None),
          meta := (meta self)(path_join (work c) ''pacman.conf'' := None)\<rparr>) [] = append_config c self []"
    by (rule append_config_cong) simp_all
  with Some x show ?thesis
    by (simp add: init_config_def Let_def os_path_exists_def os_remove_def write_file_def)
qed

text \<open>
  Claim C3. Two states with the same registry and the same options, whatever their file
  systems hold, render the same lines: \<open>append_config\<close> appends them to the list it is
  given, and \<open>init_config\<close> succeeds and leaves at the path of the artifact a file whose
  contents are exactly these lines, so nothing of an earlier artifact remains. The path
  must not be a directory, which \<open>os.remove\<close> refuses.
\<close>

theorem init_config_deterministic:
  assumes "nodes self1 (path_join (work c) ''pacman.conf'') \<noteq> Some Dir"
    and "nodes self2 (path_join (work c) ''pacman.conf'') \<noteq> Some Dir"
    and "repos self1 = repos self2" and "caches self1 = caches self2"
    and "root self1 = root self2" and "handle_gpgdir self1 = handle_gpgdir self2"
    and "handle_logfile self1 = handle_logfile self2"
  shows "append_config c self1 lines = lines @ append_config c self2 [] \<and>
         fst (init_config c self1) = None \<and> fst (init_config c self2) = None \<and>
         nodes (snd (init_config c self1)) (path_join (work c) ''pacman.conf'') =
           Some (File (concat (append_config c self1 []))) \<and>
         nodes (snd (init_config c self2)) (path_join (work c) ''pacman.conf'') =
           nodes (snd (init_config c self1)) (path_join (work c) ''pacman.conf'')"
proof -
  have eq: "append_config c self1 [] = append_config c self2 []"
    using assms(3-7) by (rule append_config_cong)
  have "append_config c self1 lines = lines @ append_config c self1 []"
    by (rule append_config_prefix)
  with eq init_config_result[OF assms(1)] init_config_result[OF assms(2)]
  show ?thesis by simp
qed

text \<open>
  Witness for C3: one state has an earlier artifact with the contents \<open>stale\<close>, the other
  an empty file system; both end with the same artifact.
\<close>

theorem init_config_deterministic_witness:
  "nodes ex_pacman (path_join (work ex_ctx) ''pacman.conf'') = Some (File ''stale'') \<and>
   nodes ex_pacman_clean (path_join (work ex_ctx) ''pacman.conf'') = None \<and>
   append_config ex_ctx ex_pacman [''x''] = [''x''] @ append_config ex_ctx ex_pacman_clean [] \<and>
   fst (init_config ex_ctx ex_pacman) = None \<and> fst (init_config ex_ctx ex_pacman_clean) = None \<and>
   nodes (snd (init_config ex_ctx ex_pacman)) (path_join (work ex_ctx) ''pacman.conf'') =
     Some (File (concat (append_config ex_ctx ex_pacman []))) \<and>
   nodes (snd (init_config ex_ctx ex_pacman_clean)) (path_join (work ex_ctx) ''pacman.conf'') =
     nodes (snd (init_config ex_ctx ex_pacman)) (path_join (work ex_ctx) ''pacman.conf'') \<and>
   append_config ex_ctx ex_pacman [] =
     [''[options]\<newline>'', ''CacheDir = /work/packages\<newline>'', ''RootDir = /work/rootfs\<newline>'',
      ''GPGDir = /work/rootfs/etc/pacman.d/gnupg\<newline>'', ''LogFile = /work/pacman.log\<newline>'',
      ''HoldPkg = pacman glibc\<newline>'', ''Architecture = x86_64\<newline>'', ''UseSyslog\<newline>'',
      ''Color\<newline>'', ''CheckSpace\<newline>'', ''VerbosePkgLists\<newline>'',
      ''ParallelDownloads = 5\<newline>'', ''SigLevel = Required DatabaseOptional\<newline>'',
      ''LocalFileSigLevel = Optional\<newline>'']"
proof -
  have p: "path_join (work ex_ctx) ''pacman.conf'' = ''/work/pacman.conf''"
    by (simp add: path_join_def ex_ctx_def startswith_def endswith_def suffix_to_prefix)
  have v1: "nodes ex_pacman (path_join (work ex_ctx) ''pacman.conf'') = Some (File ''stale'')"
    by (simp add: p ex_pacman_def ex_nodes_def)
  have v2: "nodes ex_pacman_clean (path_join (work ex_ctx) ''pacman.conf'') = None"
    by (simp add: ex_pacman_clean_def)
  have h1: "nodes ex_pacman (path_join (work ex_ctx) ''pacman.conf'') \<noteq> Some Dir"
    by (simp add: v1)
  have h2: "nodes ex_pacman_clean (path_join (work ex_ctx) ''pacman.conf'') \<noteq> Some Dir"
    by (simp add: v2)
  have h3: "repos ex_pacman = repos ex_pacman_clean" by (simp add: ex_pacman_clean_def)
  have h4: "caches ex_pacman = caches ex_pacman_clean" by (simp add: ex_pacman_clean_def)
  have h5: "root ex_pacman = root ex_pacman_clean" by (simp add: ex_pacman_clean_def)
  have h6: "handle_gpgdir ex_pacman = handle_gpgdir ex_pacman_clean"
    by (simp add: ex_pacman_clean_def)
  have h7: "handle_logfile ex_pacman = handle_logfile ex_pacman_clean"
    by (simp add: ex_pacman_clean_def)
  have v3: "append_config ex_ctx ex_pacman [] =
     [''[options]\<newline>'', ''CacheDir = /work/packages\<newline>'', ''RootDir = /work/rootfs\<newline>'',
      ''GPGDir = /work/rootfs/etc/pacman.d/gnupg\<newline>'', ''LogFile = /work/pacman.log\<newline>'',
      ''HoldPkg = pacman glibc\<newline>'', ''Architecture = x86_64\<newline>'', ''UseSyslog\<newline>'',
      ''Color\<newline>'', ''CheckSpace\<newline>'', ''VerbosePkgLists\<newline>'',
      ''ParallelDownloads = 5\<newline>'', ''SigLevel = Required DatabaseOptional\<newline>'',
      ''LocalFileSigLevel = Optional\<newline>'']"
    by (simp add: append_config_def append_repos_def ex_pacman_def ex_ctx_def Let_def)
  from init_config_deterministic[OF h1 h2 h3 h4 h5 h6 h7, of "[''x'']"] v1 v2 v3
  show ?thesis by blast
qed

section \<open>Keyring extraction\<close>

lemma keyring_files_Cons:
  "keyring_files keyring (ent # rest) =
     (if is_keyring_entry keyring ent
      then entry_filename keyring ent # keyring_files keyring rest
      else keyring_files keyring rest)"
  by (simp add: keyring_files_def)

lemma keyring_files_Nil: "keyring_files keyring [] = []"
  by (simp add: keyring_files_def)

lemma write_file_cases:
  "write_file self p contents = (eo, self') \<Longrightarrow>
     (eo \<noteq> None \<and> self' = self \<and> nodes self p = Some Dir) \<or>
     (eo = None \<and> self' = self\<lparr>nodes := (nodes self)(p \<mapsto> File contents)\<rparr>
        \<and> nodes self p \<noteq> Some Dir)"
  by (auto simp: write_file_def split: option.splits node.splits)

lemma trust_keyring_extract_skip:
  "\<not> is_keyring_entry keyring ent \<Longrightarrow>
     trust_keyring_extract target keyring (ent # rest) names self =
       trust_keyring_extract target keyring rest names self"
  by (auto simp: Let_def is_keyring_entry_def)

lemma trust_keyring_extract_step:
  "is_keyring_entry keyring ent \<Longrightarrow>
     trust_keyring_extract target keyring (ent # rest) names self =
       (case write_file self (path_join target (entry_filename keyring ent))
               (concat (blocks ent)) of
          (Some e, self') \<Rightarrow> (Inl e, self')
        | (None, self') \<Rightarrow>
            trust_keyring_extract target keyring rest
              (names @ key_names [entry_filename keyring ent])
              (self'\<lparr>meta := (meta self')
                 (path_join target (entry_filename keyring ent)
                    \<mapsto> (mode ent, uid ent, gid ent))\<rparr>))"
  by (auto simp: Let_def is_keyring_entry_def entry_filename_def key_names_def strip_gpg_def
        split: prod.splits option.splits)

lemma key_names_append: "key_names (xs @ ys) = key_names xs @ key_names ys"
  by (simp add: key_names_def)

lemma trust_keyring_extract_names:
  "trust_keyring_extract target keyring archive names self = (Inr ns, self') \<Longrightarrow>
     ns = names @ key_names (keyring_files keyring archive)"
proof (induction archive arbitrary: names self)
  case Nil
  then show ?case by (simp add: keyring_files_Nil key_names_def)
next
  case (Cons ent rest)
  show ?case
  proof (cases "is_keyring_entry keyring ent")
    case False
    with Cons.prems have "trust_keyring_extract target keyring rest names self = (Inr ns, self')"
      by (simp only: trust_keyring_extract_skip[OF False])
    from Cons.IH[OF this] False show ?thesis by (simp add: keyring_files_Cons)
  next
    case True
    define fn where "fn = entry_filename keyring ent"
    obtain eo s1 where w: "write_file self (path_join target fn) (concat (blocks ent)) = (eo, s1)"
      by (cases "write_file self (path_join target fn) (concat (blocks ent))")
    from Cons.prems w have eo: "eo = None"
      unfolding trust_keyring_extract_step[OF True] fn_def[symmetric]
      by (cases eo) simp_all
    with Cons.prems w have
      "trust_keyring_extract target keyring rest (names @ key_names [fn])
         (s1\<lparr>meta := (meta s1)(path_join target fn \<mapsto> (mode ent, uid ent, gid ent))\<rparr>) = (Inr ns, self')"
      unfolding trust_keyring_extract_step[OF True] fn_def[symmetric] by simp
    from Cons.IH[OF this] True show ?thesis
      using key_names_append[of "[fn]" "keyring_files keyring rest"]
      by (simp add: keyring_files_Cons fn_def)
  qed
qed

lemma trust_keyring_extract_frame:
  "trust_keyring_extract target keyring archive names self = (res, self') \<Longrightarrow>
     calls self' = calls self \<and> root self' = root self \<and>
     (\<forall>q. q \<notin> set (map (path_join target) (keyring_files keyring archive)) \<longrightarrow>
          nodes self' q = nodes self q) \<and>
     (\<forall>q. (\<exists>x. nodes self q = Some (File x)) \<longrightarrow> (\<exists>x. nodes self' q = Some (File x))) \<and>
     (\<forall>q. nodes self q = Some Dir \<longrightarrow> nodes self' q = Some Dir)"
proof (induction archive arbitrary: names self)
  case Nil
  then show ?case by (simp add: keyring_files_Nil)
next
  case (Cons ent rest)
  show ?case
  proof (cases "is_keyring_entry keyring ent")
    case False
    with Cons.prems have "trust_keyring_extract target keyring rest names self = (res, self')"
      by (simp only: trust_keyring_extract_skip[OF False])
    from Cons.IH[OF this] False show ?thesis by (simp add: keyring_files_Cons)
  next
    case True
    define fn where "fn = entry_filename keyring ent"
    obtain eo s1 where w: "write_file self (path_join target fn) (concat (blocks ent)) = (eo, s1)"
      by (cases "write_file self (path_join target fn) (concat (blocks ent))")
    show ?thesis
    proof (cases eo)
      case (Some e)
      with Cons.prems w have "self' = s1"
        unfolding trust_keyring_extract_step[OF True] fn_def[symmetric] by simp
      moreover from write_file_cases[OF w] Some have "s1 = self" by auto
      ultimately show ?thesis by simp
    next
      case None
      with write_file_cases[OF w]
      have s1: "s1 = self\<lparr>nodes := (nodes self)(path_join target fn \<mapsto> File (concat (blocks ent)))\<rparr>"
        and nd: "nodes self (path_join target fn) \<noteq> Some Dir"
        by auto
      from None Cons.prems w have
        "trust_keyring_extract target keyring rest (names @ key_names [fn])
           (s1\<lparr>meta := (meta s1)(path_join target fn \<mapsto> (mode ent, uid ent, gid ent))\<rparr>) = (res, self')"
        unfolding trust_keyring_extract_step[OF True] fn_def[symmetric] by simp
      from Cons.IH[OF this]
      have ih: "calls self' = calls self" "root self' = root self"
        "\<And>q. q \<notin> set (map (path_join target) (keyring_files keyring rest)) \<Longrightarrow>
           nodes self' q = ((nodes self)(path_join target fn \<mapsto> File (concat (blocks ent)))) q"
        "\<And>q x. ((nodes self)(path_join target fn \<mapsto> File (concat (blocks ent)))) q = Some (File x) \<Longrightarrow>
           \<exists>y. nodes self' q = Some (File y)"
        "\<And>q. ((nodes self)(path_join target fn \<mapsto> File (concat (blocks ent)))) q = Some Dir \<Longrightarrow>
           nodes self' q = Some Dir"
        by (simp_all add: s1)
      have kf: "keyring_files keyring (ent # rest) = fn # keyring_files keyring rest"
        using True by (simp add: keyring_files_Cons fn_def)
      have a: "\<forall>q. q \<notin> set (map (path_join target) (keyring_files keyring (ent # rest))) \<longrightarrow>
                nodes self' q = nodes self q"
        using ih(3) by (simp add: kf)
      have b: "\<forall>q. (\<exists>x. nodes self q = Some (File x)) \<longrightarrow> (\<exists>x. nodes self' q = Some (File x))"
      proof (intro allI impI)
        fix q assume "\<exists>x. nodes self q = Some (File x)"
        then obtain x where "nodes self q = Some (File x)" by blast
        then have "\<exists>z. ((nodes self)(path_join target fn \<mapsto> File (concat (blocks ent)))) q = Some (File z)"
          by simp
        then show "\<exists>x. nodes self' q = Some (File x)" using ih(4) by blast
      qed
      have c: "\<forall>q. nodes self q = Some Dir \<longrightarrow> nodes self' q = Some Dir"
      proof (intro allI impI)
        fix q assume q: "nodes self q = Some Dir"
        with nd have "q \<noteq> path_join target fn" by auto
        with q have "((nodes self)(path_join target fn \<mapsto> File (concat (blocks ent)))) q = Some Dir"
          by simp
        then show "nodes self' q = Some Dir" by (rule ih(5))
      qed
      from ih(1,2) a b c show ?thesis by blast
    qed
  qed
qed

lemma trust_keyring_extract_files:
  "trust_keyring_extract target keyring archive names self = (Inr ns, self') \<Longrightarrow>
     \<forall>fn \<in> set (keyring_files keyring archive). \<exists>x. nodes self' (path_join target fn) = Some (File x)"
proof (induction archive arbitrary: names self)
  case Nil
  then show ?case by (simp add: keyring_files_Nil)
next
  case (Cons ent rest)
  show ?case
  proof (cases "is_keyring_entry keyring ent")
    case False
    with Cons.prems have "trust_keyring_extract target keyring rest names self = (Inr ns, self')"
      by (simp only: trust_keyring_extract_skip[OF False])
    from Cons.IH[OF this] False show ?thesis by (simp add: keyring_files_Cons)
  next
    case True
    define fn where "fn = entry_filename keyring ent"
    obtain eo s1 where w: "write_file self (path_join target fn) (concat (blocks ent)) = (eo, s1)"
      by (cases "write_file self (path_join target fn) (concat (blocks ent))")
    from Cons.prems w have eo: "eo = None"
      unfolding trust_keyring_extract_step[OF True] fn_def[symmetric]
      by (cases eo) simp_all
    with write_file_cases[OF w]
    have s1: "s1 = self\<lparr>nodes := (nodes self)(path_join target fn \<mapsto> File (concat (blocks ent)))\<rparr>"
      by auto
    from eo Cons.prems w have rest:
      "trust_keyring_extract target keyring rest (names @ key_names [fn])
         (s1\<lparr>meta := (meta s1)(path_join target fn \<mapsto> (mode ent, uid ent, gid ent))\<rparr>) = (Inr ns, self')"
      unfolding trust_keyring_extract_step[OF True] fn_def[symmetric] by simp
    from trust_keyring_extract_frame[OF rest]
    have "\<exists>x. nodes self' (path_join target fn) = Some (File x)"
      by (simp add: s1)
    with Cons.IH[OF rest] True show ?thesis
      by (simp add: keyring_files_Cons fn_def)
  qed
qed

subsection \<open>The scratch directory\<close>

lemma keyrings_dir_shape: "\<exists>w. keyrings_dir c = w @ ''s''"
proof -
  have "keyrings_dir c = work c @ ''keyrings'' \<or> keyrings_dir c = work c @ ''/keyrings''"
    by (simp add: keyrings_dir_def path_join_def startswith_def)
  then show ?thesis
  proof
    assume "keyrings_dir c = work c @ ''keyrings''"
    then have "keyrings_dir c = (work c @ ''keyring'') @ ''s''" by simp
    then show ?thesis by blast
  next
    assume "keyrings_dir c = work c @ ''/keyrings''"
    then have "keyrings_dir c = (work c @ ''/keyring'') @ ''s''" by simp
    then show ?thesis by blast
  qed
qed

lemma keyrings_dir_nonempty: "keyrings_dir c \<noteq> []"
  using keyrings_dir_shape[of c] by auto





lemma trust_keyring_pkg_unfold:
  assumes "gpgcheck c" and "\<forall>x. nodes self (keyrings_dir c) \<noteq> Some (File x)"
  shows "\<exists>self2.
     calls self2 = calls self \<and> root self2 = root self \<and>
     nodes self2 (keyrings_dir c) = Some Dir \<and>
     (\<forall>q. q \<noteq> keyrings_dir c \<longrightarrow>
        nodes self2 q = (if below (keyrings_dir c) q \<and> nodes self (keyrings_dir c) \<noteq> None
                         then None else nodes self q)) \<and>
     trust_keyring_pkg fr c self pkg =
       (case find_package_file self pkg of
          None \<Rightarrow> (Some (RuntimeError (''package '' @ pkg_name pkg @ '' not found'')), self2)
        | Some p \<Rightarrow>
            (case nodes self2 p of
               Some (File bytes) \<Rightarrow>
                 (case fr bytes of
                    Inl e \<Rightarrow> (Some e, self2)
                  | Inr archive \<Rightarrow>
                      (case trust_keyring_extract (keyrings_dir c) ''usr/share/pacman/keyrings/'' archive [] self2 of
                         (Inl e, self3) \<Rightarrow> (Some e, self3)
                       | (Inr names, self3) \<Rightarrow>
                           pouplate_keys c self3 (Some names) (Some (keyrings_dir c))))
             | _ \<Rightarrow> (Some (OSError ''cannot open archive''), self2)))"
proof (cases "nodes self (keyrings_dir c)")
  case None
  let ?s2 = "self\<lparr>nodes := (nodes self)(keyrings_dir c \<mapsto> Dir)\<rparr>"
  have "trust_keyring_pkg fr c self pkg =
       (case find_package_file self pkg of
          None \<Rightarrow> (Some (RuntimeError (''package '' @ pkg_name pkg @ '' not found'')), ?s2)
        | Some p \<Rightarrow>
            (case nodes ?s2 p of
               Some (File bytes) \<Rightarrow>
                 (case fr bytes of
                    Inl e \<Rightarrow> (Some e, ?s2)
                  | Inr archive \<Rightarrow>
                      (case trust_keyring_extract (keyrings_dir c) ''usr/share/pacman/keyrings/'' archive [] ?s2 of
                         (Inl e, self3) \<Rightarrow> (Some e, self3)
                       | (Inr names, self3) \<Rightarrow>
                           pouplate_keys c self3 (Some names) (Some (keyrings_dir c))))
             | _ \<Rightarrow> (Some (OSError ''cannot open archive''), ?s2)))"
    using assms(1) None
    by (simp add: trust_keyring_pkg_def Let_def os_path_exists_def os_makedirs_def
          keyrings_dir_def[symmetric])
  moreover have "calls ?s2 = calls self" "root ?s2 = root self"
    "nodes ?s2 (keyrings_dir c) = Some Dir"
    "\<forall>q. q \<noteq> keyrings_dir c \<longrightarrow>
        nodes ?s2 q = (if below (keyrings_dir c) q \<and> nodes self (keyrings_dir c) \<noteq> None
                         then None else nodes self q)"
    using None by simp_all
  ultimately show ?thesis by blast
next
  case (Some nd)
  with assms(2) have dir: "nodes self (keyrings_dir c) = Some Dir" by (cases nd) auto
  let ?s2 = "self\<lparr>meta := (\<lambda>p. if p = keyrings_dir c \<or> below (keyrings_dir c) p then None else meta self p),
                  nodes := (\<lambda>p. if p = keyrings_dir c \<or> below (keyrings_dir c) p then None else nodes self p)
                             (keyrings_dir c \<mapsto> Dir)\<rparr>"
  have "trust_keyring_pkg fr c self pkg =
       (case find_package_file self pkg of
          None \<Rightarrow> (Some (RuntimeError (''package '' @ pkg_name pkg @ '' not found'')), ?s2)
        | Some p \<Rightarrow>
            (case nodes ?s2 p of
               Some (File bytes) \<Rightarrow>
                 (case fr bytes of
                    Inl e \<Rightarrow> (Some e, ?s2)
                  | Inr archive \<Rightarrow>
                      (case trust_keyring_extract (keyrings_dir c) ''usr/share/pacman/keyrings/'' archive [] ?s2 of
                         (Inl e, self3) \<Rightarrow> (Some e, self3)
                       | (Inr names, self3) \<Rightarrow>
                           pouplate_keys c self3 (Some names) (Some (keyrings_dir c))))
             | _ \<Rightarrow> (Some (OSError ''cannot open archive''), ?s2)))"
    using assms(1) dir
    by (simp add: trust_keyring_pkg_def Let_def os_path_exists_def os_makedirs_def
          shutil_rmtree_def keyrings_dir_def[symmetric])
  moreover have "calls ?s2 = calls self" "root ?s2 = root self"
    "nodes ?s2 (keyrings_dir c) = Some Dir"
    "\<forall>q. q \<noteq> keyrings_dir c \<longrightarrow>
        nodes ?s2 q = (if below (keyrings_dir c) q \<and> nodes self (keyrings_dir c) \<noteq> None
                         then None else nodes self q)"
    using dir by simp_all
  ultimately show ?thesis by blast
qed

lemma pouplate_keys_result:
  assumes "gpgcheck c" "folder \<noteq> []" "pouplate_keys c self (Some names) (Some folder) = (eo, self')"
  shows "calls self' = calls self @
           [[''pacman-key'', ''--gpgdir='' @ path_join (root self) ''etc/pacman.d/gnupg'',
             ''--config='' @ path_join (work c) ''pacman.conf'',
             ''--populate'', ''--populate-from'', folder] @ names]
         \<and> nodes self' = nodes self"
  using assms by (auto simp: pouplate_keys_def pacman_key_def Let_def split: if_splits)

lemma trust_keyring_pkg_not_dir:
  assumes "gpgcheck c" "nodes self (keyrings_dir c) = Some (File x)"
  shows "trust_keyring_pkg fr c self pkg = (Some (OSError ''not a directory''), self)"
  using assms
  by (simp add: trust_keyring_pkg_def Let_def os_path_exists_def shutil_rmtree_def
        keyrings_dir_def[symmetric])

subsection \<open>Distinct names\<close>

lemma startswith_split: "startswith s p \<Longrightarrow> s = p @ drop (length p) s"
  by (auto simp: startswith_def prefix_def)

lemma endswith_split: "endswith s e \<Longrightarrow> s = take (length s - length e) s @ e"
  by (auto simp: endswith_def suffix_def)

lemma endswith_gpg:
  assumes "endswith s ''.gpg''"
  shows "s = strip_gpg s @ ''.gpg''"
proof -
  have "length ''.gpg'' = (4::nat)" by simp
  then have "take (length s - length ''.gpg'') s = strip_gpg s"
    by (simp only: strip_gpg_def)
  then show ?thesis using endswith_split[OF assms] by metis
qed

lemma keyring_files_distinct:
  assumes "distinct (map pathname archive)"
  shows "distinct (keyring_files keyring archive)"
proof -
  have inj: "inj_on (entry_filename keyring) (set (filter (is_keyring_entry keyring) archive))"
  proof (rule inj_onI)
    fix a b
    assume a: "a \<in> set (filter (is_keyring_entry keyring) archive)"
      and b: "b \<in> set (filter (is_keyring_entry keyring) archive)"
      and eq: "entry_filename keyring a = entry_filename keyring b"
    from a have "pathname a = keyring @ entry_filename keyring a"
      using startswith_split[of "pathname a" keyring]
      by (simp add: is_keyring_entry_def entry_filename_def)
    moreover from b have "pathname b = keyring @ entry_filename keyring b"
      using startswith_split[of "pathname b" keyring]
      by (simp add: is_keyring_entry_def entry_filename_def)
    ultimately have "pathname a = pathname b" using eq by simp
    moreover from assms have "inj_on pathname (set archive)" by (simp add: distinct_map)
    ultimately show "a = b" using a b by (auto dest: inj_onD)
  qed
  from assms have "distinct (filter (is_keyring_entry keyring) archive)"
    by (simp add: distinct_map)
  with inj show ?thesis by (simp add: keyring_files_def distinct_map)
qed

lemma key_names_distinct:
  assumes "distinct fns"
  shows "distinct (key_names fns)"
proof -
  have "inj_on strip_gpg (set (filter (\<lambda>fn. endswith fn ''.gpg'') fns))"
  proof (rule inj_onI)
    fix a b
    assume a: "a \<in> set (filter (\<lambda>fn. endswith fn ''.gpg'') fns)"
      and b: "b \<in> set (filter (\<lambda>fn. endswith fn ''.gpg'') fns)"
      and eq: "strip_gpg a = strip_gpg b"
    from a have "a = strip_gpg a @ ''.gpg''" by (simp add: endswith_gpg)
    moreover from b have "b = strip_gpg b @ ''.gpg''" by (simp add: endswith_gpg)
    ultimately show "a = b" using eq by metis
  qed
  with assms show ?thesis by (simp add: key_names_def distinct_map)
qed

subsection \<open>The examples\<close>

lemmas ex_trust_defs =
  trust_keyring_pkg_def find_package_file_def os_path_exists_def shutil_rmtree_def
  os_makedirs_def write_file_def pouplate_keys_def pacman_key_def path_join_def
  startswith_def endswith_def suffix_to_prefix below_def Let_def
  ex_ctx_def ex_pacman_def ex_nodes_def ex_pkg_def


subsection \<open>Where the extraction writes\<close>




subsection \<open>The key identifiers\<close>

text \<open>
  Claim C5, as amended. When \<open>trust_keyring_pkg\<close> succeeds with signature checking on,
  the archive of the package was found and read, every keyring file of the archive
  exists in the scratch directory, and the one command run is \<open>pacman-key --populate\<close>
  from the scratch directory with the key identifiers: one per keyring file that ends in
  \<open>.gpg\<close>, in archive order, the file name without \<open>.gpg\<close>. As a set they are exactly
  the stripped names of these files. They are distinct when the paths of the archive's
  entries are distinct.
\<close>

theorem trust_keyring_pkg_names:
  assumes gpg: "gpgcheck c"
    and run: "trust_keyring_pkg file_reader c self pkg = (None, self')"
  shows "\<exists>p bytes archive.
     find_package_file self pkg = Some p \<and> nodes self p = Some (File bytes) \<and>
     file_reader bytes = Inr archive \<and>
     calls self' = calls self @
        [pacman_key_populate c self (key_names (keyring_files ''usr/share/pacman/keyrings/'' archive))] \<and>
     set (key_names (keyring_files ''usr/share/pacman/keyrings/'' archive)) =
        strip_gpg ` {fn \<in> set (keyring_files ''usr/share/pacman/keyrings/'' archive). endswith fn ''.gpg''} \<and>
     (\<forall>fn \<in> set (keyring_files ''usr/share/pacman/keyrings/'' archive).
        \<exists>x. nodes self' (path_join (keyrings_dir c) fn) = Some (File x)) \<and>
     (distinct (map pathname archive) \<longrightarrow>
        distinct (key_names (keyring_files ''usr/share/pacman/keyrings/'' archive)))"
proof -
  let ?t = "keyrings_dir c"
  have nofile: "\<forall>x. nodes self ?t \<noteq> Some (File x)"
  proof (intro allI notI)
    fix x assume "nodes self ?t = Some (File x)"
    from trust_keyring_pkg_not_dir[OF gpg this, of file_reader pkg] run show False by simp
  qed
  from trust_keyring_pkg_unfold[OF gpg nofile, of file_reader pkg]
  obtain self2 where s2c: "calls self2 = calls self" and s2r: "root self2 = root self"
    and s2: "nodes self2 ?t = Some Dir"
    and s2n: "\<forall>q. q \<noteq> ?t \<longrightarrow>
        nodes self2 q = (if below ?t q \<and> nodes self ?t \<noteq> None then None else nodes self q)"
    and tr: "trust_keyring_pkg file_reader c self pkg =
       (case find_package_file self pkg of
          None \<Rightarrow> (Some (RuntimeError (''package '' @ pkg_name pkg @ '' not found'')), self2)
        | Some p \<Rightarrow>
           (case nodes self2 p of
              Some (File bytes) \<Rightarrow>
                (case file_reader bytes of
                   Inl e \<Rightarrow> (Some e, self2)
                 | Inr archive \<Rightarrow>
                     (case trust_keyring_extract ?t ''usr/share/pacman/keyrings/'' archive [] self2 of
                        (Inl e, self3) \<Rightarrow> (Some e, self3)
                      | (Inr names, self3) \<Rightarrow>
                          pouplate_keys c self3 (Some names) (Some ?t)))
            | _ \<Rightarrow> (Some (OSError ''cannot open archive''), self2)))"
    by blast
  from tr run obtain p where p: "find_package_file self pkg = Some p"
    by (cases "find_package_file self pkg") auto
  from tr run p obtain bytes where b: "nodes self2 p = Some (File bytes)"
    by (auto split: option.splits node.splits)
  from tr run p b obtain archive where a: "file_reader bytes = Inr archive"
    by (cases "file_reader bytes") auto
  obtain res self3 where ex:
    "trust_keyring_extract ?t ''usr/share/pacman/keyrings/'' archive [] self2 = (res, self3)"
    by (cases "trust_keyring_extract ?t ''usr/share/pacman/keyrings/'' archive [] self2")
  from tr run p b a ex obtain names where res: "res = Inr names"
    and pk: "pouplate_keys c self3 (Some names) (Some ?t) = (None, self')"
    by (cases res) auto
  from trust_keyring_extract_names[OF ex[unfolded res]]
  have names: "names = key_names (keyring_files ''usr/share/pacman/keyrings/'' archive)" by simp
  from trust_keyring_extract_frame[OF ex] s2c s2r
  have f3: "calls self3 = calls self" "root self3 = root self" by simp_all
  from pouplate_keys_result[OF gpg keyrings_dir_nonempty pk] f3
  have calls: "calls self' = calls self @
        [pacman_key_populate c self (key_names (keyring_files ''usr/share/pacman/keyrings/'' archive))]"
    and nd: "nodes self' = nodes self3"
    by (simp_all add: pacman_key_populate_def names)
  from trust_keyring_extract_files[OF ex[unfolded res]] nd
  have files: "\<forall>fn \<in> set (keyring_files ''usr/share/pacman/keyrings/'' archive).
        \<exists>x. nodes self' (path_join ?t fn) = Some (File x)" by simp
  from b s2 have "p \<noteq> ?t" by auto
  with s2n b have orig: "nodes self p = Some (File bytes)" by (auto split: if_splits)
  have st: "set (key_names (keyring_files ''usr/share/pacman/keyrings/'' archive)) =
        strip_gpg ` {fn \<in> set (keyring_files ''usr/share/pacman/keyrings/'' archive). endswith fn ''.gpg''}"
    by (auto simp: key_names_def)
  have di: "distinct (map pathname archive) \<longrightarrow>
        distinct (key_names (keyring_files ''usr/share/pacman/keyrings/'' archive))"
    by (simp add: keyring_files_distinct key_names_distinct)
  from p orig a calls st files di show ?thesis by blast
qed

text \<open>Witness for C5: the example archive has one key file, \<open>archlinux.gpg\<close>.\<close>

theorem trust_keyring_pkg_names_witness:
  "gpgcheck ex_ctx \<and>
   trust_keyring_pkg ex_reader ex_ctx ex_pacman ex_pkg =
     (None, snd (trust_keyring_pkg ex_reader ex_ctx ex_pacman ex_pkg)) \<and>
   (\<exists>p bytes archive.
     find_package_file ex_pacman ex_pkg = Some p \<and> nodes ex_pacman p = Some (File bytes) \<and>
     ex_reader bytes = Inr archive \<and>
     calls (snd (trust_keyring_pkg ex_reader ex_ctx ex_pacman ex_pkg)) = calls ex_pacman @
        [pacman_key_populate ex_ctx ex_pacman
           (key_names (keyring_files ''usr/share/pacman/keyrings/'' archive))] \<and>
     (distinct (map pathname archive) \<longrightarrow>
        distinct (key_names (keyring_files ''usr/share/pacman/keyrings/'' archive)))) \<and>
   distinct (map pathname ex_archive) \<and>
   calls (snd (trust_keyring_pkg ex_reader ex_ctx ex_pacman ex_pkg)) =
     [[''pacman-key'', ''--gpgdir=/work/rootfs/etc/pacman.d/gnupg'',
       ''--config=/work/pacman.conf'', ''--populate'', ''--populate-from'', ''/work/keyrings'',
       ''archlinux'']]"
proof -
  have h1: "gpgcheck ex_ctx" by (simp add: ex_ctx_def)
  have h2: "trust_keyring_pkg ex_reader ex_ctx ex_pacman ex_pkg =
     (None, snd (trust_keyring_pkg ex_reader ex_ctx ex_pacman ex_pkg))"
    by (simp add: ex_trust_defs ex_reader_def ex_archive_def)
  have v1: "distinct (map pathname ex_archive)" by (simp add: ex_archive_def)
  have v2: "calls (snd (trust_keyring_pkg ex_reader ex_ctx ex_pacman ex_pkg)) =
     [[''pacman-key'', ''--gpgdir=/work/rootfs/etc/pacman.d/gnupg'',
       ''--config=/work/pacman.conf'', ''--populate'', ''--populate-from'', ''/work/keyrings'',
       ''archlinux'']]"
    by (simp add: ex_trust_defs ex_reader_def ex_archive_def)
  from trust_keyring_pkg_names[OF h1 h2]
  have "\<exists>p bytes archive.
     find_package_file ex_pacman ex_pkg = Some p \<and> nodes ex_pacman p = Some (File bytes) \<and>
     ex_reader bytes = Inr archive \<and>
     calls (snd (trust_keyring_pkg ex_reader ex_ctx ex_pacman ex_pkg)) = calls ex_pacman @
        [pacman_key_populate ex_ctx ex_pacman
           (key_names (keyring_files ''usr/share/pacman/keyrings/'' archive))] \<and>
     (distinct (map pathname archive) \<longrightarrow>
        distinct (key_names (keyring_files ''usr/share/pacman/keyrings/'' archive)))"
    by blast
  with h1 h2 v1 v2 show ?thesis by blast
qed

text \<open>
  Counterexample to C5 as stated: an archive that holds \<open>dup.gpg\<close> twice gives the
  identifier \<open>dup\<close> twice.
\<close>

theorem trust_keyring_pkg_duplicate_names:
  "trust_keyring_pkg dup_reader ex_ctx ex_pacman ex_pkg =
     (None, snd (trust_keyring_pkg dup_reader ex_ctx ex_pacman ex_pkg)) \<and>
   calls (snd (trust_keyring_pkg dup_reader ex_ctx ex_pacman ex_pkg)) =
     [[''pacman-key'', ''--gpgdir=/work/rootfs/etc/pacman.d/gnupg'',
       ''--config=/work/pacman.conf'', ''--populate'', ''--populate-from'', ''/work/keyrings'',
       ''dup'', ''dup'']] \<and>
   \<not> distinct (drop 6 (last (calls (snd (trust_keyring_pkg dup_reader ex_ctx ex_pacman ex_pkg)))))"
  by (simp add: ex_trust_defs dup_reader_def)

subsection \<open>A package that is in no cache\<close>




section \<open>Lookup of a bare package name\<close>

lemma split_slash_no_slash: "CHR ''/'' \<notin> set name \<Longrightarrow> split_slash name = [name]"
  by (induction name) auto

lemma first_package_Nil: "first_package h [] name = None"
  by (simp add: first_package_def map_filter_simps)

lemma first_package_Cons:
  "first_package h (db # dbs) name =
     (case get_pkg h db name of Some pkg \<Rightarrow> Some pkg | None \<Rightarrow> first_package h dbs name)"
  by (simp add: first_package_def map_filter_simps split: option.splits)

lemma lookup_package_dbs_eq:
  assumes "distinct (map fst databases)" "set dbl \<subseteq> set databases"
  shows "lookup_package_dbs h databases (map fst dbl) name =
     (case first_package h (map snd dbl) name of
        Some pkg \<Rightarrow> Inr [pkg]
      | None \<Rightarrow> Inl (ValueError (''package '' @ name @ '' not found'')))"
  using assms(2)
proof (induction dbl)
  case Nil
  then show ?case by (simp add: first_package_Nil)
next
  case (Cons kv dbl)
  obtain k v where kv: "kv = (k, v)" by (cases kv)
  with Cons.prems have "(k, v) \<in> set databases" by simp
  with assms(1) have "map_of databases k = Some v" by simp
  with Cons kv show ?case
    by (simp add: first_package_Cons split: option.splits)
qed

text \<open>
  Claim C10. For a name that is not an archive file name and has no slash: when the name
  is a non-empty group, \<open>lookup_package\<close> returns the members of the group, whether or not
  a package has that name; otherwise it returns the first package that the databases, in
  registration order, hold under the name; otherwise it raises \<open>ValueError\<close>. The keys of
  the dictionary \<open>databases\<close> are distinct.
\<close>

theorem lookup_package_bare_name:
  assumes "\<not> sublist ''.pkg.tar.'' name" and "CHR ''/'' \<notin> set name"
    and "distinct (map fst databases)"
  shows "lookup_package h databases name =
     (if find_grp_pkgs h (map snd databases) name \<noteq> []
      then Inr (find_grp_pkgs h (map snd databases) name)
      else (case first_package h (map snd databases) name of
              Some pkg \<Rightarrow> Inr [pkg]
            | None \<Rightarrow> Inl (ValueError (''package '' @ name @ '' not found''))))"
  using assms lookup_package_dbs_eq[OF assms(3), of databases h name]
  by (simp add: lookup_package_def split_slash_no_slash Let_def)

text \<open>Witness for C10: \<open>xorg\<close> is a group and also a package of \<open>extra\<close>; the group wins.\<close>

theorem lookup_package_bare_name_witness:
  "\<not> sublist ''.pkg.tar.'' ''xorg'' \<and> CHR ''/'' \<notin> set ''xorg'' \<and>
   distinct (map fst ex_databases) \<and>
   lookup_package ex_alpm ex_databases ''xorg'' = Inr [''xorg-server'', ''xorg-xinit''] \<and>
   get_pkg ex_alpm ''extra'' ''xorg'' = Some ''extra/xorg''"
proof -
  have h1: "\<not> sublist ''.pkg.tar.'' ''xorg''" by (simp add: sublist_code)
  have h2: "CHR ''/'' \<notin> set ''xorg''" by simp
  have h3: "distinct (map fst ex_databases)" by (simp add: ex_databases_def)
  from lookup_package_bare_name[OF h1 h2 h3, of ex_alpm] h1 h2 h3
  show ?thesis by (simp add: ex_alpm_def)
qed

end
